theory Spec2Isabelle
  imports Complex_Main "HOL-Library.Multiset"
begin

section \<open>Quiz Master backend: values crossing the HTTP and SQL boundaries\<close>

text \<open>
  The backend is two files: \<^verbatim>\<open>Backend/Database.js\<close> (a class wrapping one SQLite handle)
  and \<^verbatim>\<open>Backend/Server.js\<close> (the Express request handlers).  Request bodies are parsed
  JSON, so every field a handler destructures is a JavaScript value that may be missing.
  Scalar body fields are values of \<open>jsval\<close>; a number is any rational (every JSON
  number is one).  The fields that hold arrays (\<^verbatim>\<open>questions\<close>, a question's
  \<^verbatim>\<open>options\<close>) have types of their own below.
\<close>

datatype jsval = JUndefined | JNull | JBool bool | JNum rat | JStr string

text \<open>JavaScript truthiness, as used by \<^verbatim>\<open>!x\<close>, \<^verbatim>\<open>x || y\<close> and \<^verbatim>\<open>x ? a : b\<close>.\<close>

fun truthy :: "jsval \<Rightarrow> bool" where
  "truthy JUndefined = False"
| "truthy JNull = False"
| "truthy (JBool b) = b"
| "truthy (JNum n) = (n \<noteq> 0)"
| "truthy (JStr s) = (s \<noteq> [])"

definition js_or :: "jsval \<Rightarrow> jsval \<Rightarrow> jsval" where
  "js_or a b = (if truthy a then a else b)"

text \<open>Array indexing \<^verbatim>\<open>xs[i]\<close>: reading past the end gives \<^verbatim>\<open>undefined\<close>.\<close>

definition js_index :: "jsval list \<Rightarrow> nat \<Rightarrow> jsval" where
  "js_index xs i = (if i < length xs then xs ! i else JUndefined)"

text \<open>
  Some of what the handlers rely on is computed outside the repository, by the
  JavaScript runtime and by SQLite, and depends on their version or on how a string is
  encoded.  It is a parameter of the model, and every result below holds for each value of
  it:
  \<^item> \<open>string_trim\<close>: \<^verbatim>\<open>String.prototype.trim\<close> (which white space it strips);
  \<^item> \<open>string_length\<close>: the \<^verbatim>\<open>length\<close> of a string (its UTF-16 code units);
  \<^item> \<open>real_text\<close>: the text SQLite makes of a floating-point value, as the characters
    before and after its decimal point (the text always has one);
  \<^item> \<open>numeric_text\<close>: the number SQLite makes of a text stored in a column of integer
    affinity (an integer, or a floating-point value), if the text reads as a number;
  \<^item> \<open>real_integer\<close>: the integer SQLite makes of a floating-point value stored in a
    column of integer affinity, if it converts it.
\<close>

record runtime =
  string_trim :: "string \<Rightarrow> string"
  string_length :: "string \<Rightarrow> nat"
  real_text :: "rat \<Rightarrow> string \<times> string"
  numeric_text :: "string \<Rightarrow> (int + rat) option"
  real_integer :: "rat \<Rightarrow> int option"

text \<open>
  The values SQLite stores.  The driver binds \<^verbatim>\<open>undefined\<close> and \<^verbatim>\<open>null\<close> as NULL,
  booleans as the integers 0 and 1, a number as an integer when it is a whole number of
  32 bits and as a floating-point value otherwise, and strings as text.
\<close>

datatype sqlval = SNull | SInt int | SReal rat | SText string

definition is_int32 :: "rat \<Rightarrow> bool" where
  "is_int32 q = (of_int \<lfloor>q\<rfloor> = q \<and> - 2147483648 \<le> q \<and> q \<le> 2147483647)"

fun bind :: "jsval \<Rightarrow> sqlval" where
  "bind JUndefined = SNull"
| "bind JNull = SNull"
| "bind (JBool b) = SInt (if b then 1 else 0)"
| "bind (JNum n) = (if is_int32 n then SInt \<lfloor>n\<rfloor> else SReal n)"
| "bind (JStr s) = SText s"

text \<open>A column read back into a JavaScript row object.\<close>

fun column :: "sqlval \<Rightarrow> jsval" where
  "column SNull = JNull"
| "column (SInt n) = JNum (of_int n)"
| "column (SReal q) = JNum q"
| "column (SText s) = JStr s"

text \<open>
  Columns declared \<^verbatim>\<open>TEXT\<close> have text affinity: a number stored in them becomes text,
  an integer its decimal digits.  The same conversion applies to a parameter compared
  with such a column.
\<close>

fun digits :: "nat \<Rightarrow> string" where
  "digits n = (if n < 10 then [char_of (48 + n)]
               else digits (n div 10) @ [char_of (48 + n mod 10)])"

definition decimal :: "int \<Rightarrow> string" where
  "decimal i = (if i < 0 then CHR ''-'' # digits (nat (- i)) else digits (nat i))"

fun text_affinity :: "runtime \<Rightarrow> sqlval \<Rightarrow> sqlval" where
  "text_affinity rt SNull = SNull"
| "text_affinity rt (SInt n) = SText (decimal n)"
| "text_affinity rt (SReal q) = SText (fst (real_text rt q) @ CHR ''.'' # snd (real_text rt q))"
| "text_affinity rt (SText s) = SText s"

text \<open>
  Columns declared \<^verbatim>\<open>INTEGER\<close> have integer affinity: a text that reads as a number
  is stored as that number, and a floating-point value as an integer when SQLite converts
  it.
\<close>

fun integer_affinity :: "runtime \<Rightarrow> sqlval \<Rightarrow> sqlval" where
  "integer_affinity rt SNull = SNull"
| "integer_affinity rt (SInt n) = SInt n"
| "integer_affinity rt (SReal q) =
     (case real_integer rt q of None \<Rightarrow> SReal q | Some n \<Rightarrow> SInt n)"
| "integer_affinity rt (SText s) =
     (case numeric_text rt s of
        None \<Rightarrow> SText s
      | Some (Inl n) \<Rightarrow> SInt n
      | Some (Inr q) \<Rightarrow> SReal q)"

text \<open>SQL equality in a \<^verbatim>\<open>WHERE\<close> clause: a comparison with NULL is never true.\<close>

definition sql_eq :: "sqlval \<Rightarrow> sqlval \<Rightarrow> bool" where
  "sql_eq a b = (a \<noteq> SNull \<and> b \<noteq> SNull \<and> a = b)"

section \<open>The tables of \<^verbatim>\<open>Database.init\<close>\<close>

text \<open>
  One record per table row, one list per table in row-id order.  The
  \<^verbatim>\<open>created_at\<close> and \<^verbatim>\<open>completed_at\<close> time stamps are left out: no operation
  modelled here reads them.  Every \<^verbatim>\<open>id\<close> is \<^verbatim>\<open>INTEGER PRIMARY KEY AUTOINCREMENT\<close>:
  each table keeps the largest id it ever handed out (\<open>seq_*\<close>), and a new row gets one
  more than the larger of that and of the ids in the table.
\<close>

record user_row =
  u_id :: int
  u_username :: sqlval
  u_email :: sqlval
  u_password :: sqlval

record quiz_row =
  qz_id :: int
  qz_title :: sqlval
  qz_description :: sqlval
  qz_time_limit :: sqlval
  qz_user_id :: int

record question_row =
  qn_id :: int
  qn_quiz_id :: int
  qn_question_text :: sqlval
  qn_option_a :: sqlval
  qn_option_b :: sqlval
  qn_option_c :: sqlval
  qn_option_d :: sqlval
  qn_correct_answer :: sqlval
  qn_question_order :: int

record result_row =
  rs_id :: int
  rs_quiz_id :: sqlval
  rs_user_id :: int
  rs_score :: sqlval
  rs_total_questions :: sqlval
  rs_time_taken :: sqlval
  rs_answers :: sqlval

record db =
  users :: "user_row list"
  quizzes :: "quiz_row list"
  questions :: "question_row list"
  quiz_results :: "result_row list"
  seq_users :: int
  seq_quizzes :: int
  seq_questions :: int
  seq_results :: int

definition empty_db :: db where
  "empty_db = \<lparr> users = [], quizzes = [], questions = [], quiz_results = [],
                seq_users = 0, seq_quizzes = 0, seq_questions = 0, seq_results = 0 \<rparr>"

definition next_id :: "int \<Rightarrow> int list \<Rightarrow> int" where
  "next_id seq ids = fold max ids seq + 1"

text \<open>
  Every statement can fail in the engine (the \<^verbatim>\<open>err\<close> argument of each callback).  A
  failure is either an input/output error, which the caller of the model chooses with a
  flag per statement, or a constraint violation, which the model computes from the schema.
\<close>

datatype sql_error = SQLITE_IOERR | SQLITE_CONSTRAINT

definition fault :: "bool list \<Rightarrow> nat \<Rightarrow> bool" where
  "fault fs k = (k < length fs \<and> fs ! k)"

definition no_faults :: "bool list \<Rightarrow> bool" where
  "no_faults fs = list_all Not fs"

section \<open>\<^verbatim>\<open>Database.js\<close>: the persistence layer\<close>

text \<open>
  Each method takes the runtime where it stores or compares a value, one flag per SQL
  statement it issues (\<open>True\<close>: the engine reports an input/output error for that
  statement), its own arguments, and the database; it returns what the callback receives
  and, for a write, the database after it.  A statement that fails changes nothing.
\<close>

subsection \<open>Users\<close>

text \<open>
  \<^verbatim>\<open>createUser\<close>: \<^verbatim>\<open>INSERT INTO users (username, email, password)\<close>; all three columns
  are \<^verbatim>\<open>NOT NULL\<close>, username and email are \<^verbatim>\<open>UNIQUE\<close>.  The callback gets
  \<^verbatim>\<open>this.lastID\<close>.
\<close>

definition createUser ::
  "runtime \<Rightarrow> bool \<Rightarrow> jsval \<Rightarrow> jsval \<Rightarrow> jsval \<Rightarrow> db \<Rightarrow> (sql_error + int) \<times> db" where
  "createUser rt io username email password d =
     (let u = text_affinity rt (bind username);
          e = text_affinity rt (bind email);
          p = text_affinity rt (bind password);
          i = next_id (seq_users d) (map u_id (users d))
      in if io then (Inl SQLITE_IOERR, d)
         else if u = SNull \<or> e = SNull \<or> p = SNull then (Inl SQLITE_CONSTRAINT, d)
         else if list_ex (\<lambda>r. u_username r = u \<or> u_email r = e) (users d)
           then (Inl SQLITE_CONSTRAINT, d)
         else (Inr i,
               d\<lparr> users := users d @ [\<lparr> u_id = i, u_username = u, u_email = e, u_password = p \<rparr>],
                  seq_users := i \<rparr>))"

text \<open>\<^verbatim>\<open>getUserByEmail\<close>: \<^verbatim>\<open>SELECT * FROM users WHERE email = ?\<close>, first row or nothing.\<close>

definition getUserByEmail ::
  "runtime \<Rightarrow> bool \<Rightarrow> jsval \<Rightarrow> db \<Rightarrow> sql_error + user_row option" where
  "getUserByEmail rt io email d =
     (if io then Inl SQLITE_IOERR
      else Inr (find (\<lambda>r. sql_eq (u_email r) (text_affinity rt (bind email))) (users d)))"

subsection \<open>Quizzes\<close>

record quiz_data =
  title :: jsval
  description :: jsval
  time_limit :: jsval
  user_id :: int

text \<open>
  \<^verbatim>\<open>createQuiz\<close>: \<^verbatim>\<open>INSERT INTO quizzes (title, description, time_limit, user_id)\<close>;
  \<^verbatim>\<open>title\<close> is \<^verbatim>\<open>NOT NULL\<close>.  The column default of \<^verbatim>\<open>time_limit\<close> never applies,
  because the statement names the column.
\<close>

definition createQuiz ::
  "runtime \<Rightarrow> bool \<Rightarrow> quiz_data \<Rightarrow> db \<Rightarrow> (sql_error + int) \<times> db" where
  "createQuiz rt io quizData d =
     (let t = text_affinity rt (bind (title quizData));
          i = next_id (seq_quizzes d) (map qz_id (quizzes d))
      in if io then (Inl SQLITE_IOERR, d)
         else if t = SNull then (Inl SQLITE_CONSTRAINT, d)
         else (Inr i,
               d\<lparr> quizzes := quizzes d @
                      [\<lparr> qz_id = i, qz_title = t,
                         qz_description = text_affinity rt (bind (description quizData)),
                         qz_time_limit = integer_affinity rt (bind (time_limit quizData)),
                         qz_user_id = user_id quizData \<rparr>],
                  seq_quizzes := i \<rparr>))"

text \<open>
  What \<^verbatim>\<open>getQuizById\<close> hands to its callback: the quiz row spread into an object,
  with a \<^verbatim>\<open>questions\<close> array of \<^verbatim>\<open>{id, text, options, correct}\<close>.
\<close>

record question_view =
  qv_id :: int
  qv_text :: jsval
  qv_options :: "jsval list"
  qv_correct :: jsval

record quiz_view =
  v_quiz :: quiz_row
  v_questions :: "question_view list"

definition format_question :: "question_row \<Rightarrow> question_view" where
  "format_question q =
     \<lparr> qv_id = qn_id q,
       qv_text = column (qn_question_text q),
       qv_options = filter (\<lambda>opt. opt \<noteq> JNull \<and> opt \<noteq> JUndefined \<and> opt \<noteq> JStr [])
                      [column (qn_option_a q), column (qn_option_b q),
                       column (qn_option_c q), column (qn_option_d q)],
       qv_correct = column (qn_correct_answer q) \<rparr>"

text \<open>
  \<^verbatim>\<open>getQuizById\<close>: the quiz row by id, then its questions
  \<^verbatim>\<open>ORDER BY question_order\<close> (rows with equal keys stay in row-id order).  The id \<open>qid\<close>
  is the result of \<^verbatim>\<open>parseInt\<close>; \<open>None\<close> stands for \<^verbatim>\<open>NaN\<close>, which is bound as NULL and
  matches no row.  \<open>Inr None\<close> is the callback \<^verbatim>\<open>(null, null)\<close>.
\<close>

definition getQuizById ::
  "bool \<Rightarrow> bool \<Rightarrow> int option \<Rightarrow> db \<Rightarrow> sql_error + quiz_view option" where
  "getQuizById io1 io2 qid d =
     (if io1 then Inl SQLITE_IOERR
      else case find (\<lambda>q. Some (qz_id q) = qid) (quizzes d) of
             None \<Rightarrow> Inr None
           | Some quiz \<Rightarrow>
               if io2 then Inl SQLITE_IOERR
               else Inr (Some
                 \<lparr> v_quiz = quiz,
                   v_questions = map format_question
                     (sort_key qn_question_order
                        (filter (\<lambda>q. Some (qn_quiz_id q) = qid) (questions d))) \<rparr>))"

text \<open>
  \<^verbatim>\<open>deleteQuiz\<close>: first \<^verbatim>\<open>DELETE FROM questions WHERE quiz_id = ?\<close>, then
  \<^verbatim>\<open>DELETE FROM quizzes WHERE id = ? AND user_id = ?\<close>; the callback gets
  \<^verbatim>\<open>this.changes\<close> of the second statement.
\<close>

definition deleteQuiz ::
  "bool \<Rightarrow> bool \<Rightarrow> int option \<Rightarrow> int \<Rightarrow> db \<Rightarrow> (sql_error + nat) \<times> db" where
  "deleteQuiz io1 io2 quizId userId d =
     (if io1 then (Inl SQLITE_IOERR, d)
      else let d1 = d\<lparr> questions := filter (\<lambda>q. Some (qn_quiz_id q) \<noteq> quizId) (questions d) \<rparr>
           in if io2 then (Inl SQLITE_IOERR, d1)
              else (Inr (length (filter (\<lambda>q. Some (qz_id q) = quizId \<and> qz_user_id q = userId)
                                   (quizzes d1))),
                    d1\<lparr> quizzes := filter (\<lambda>q. \<not> (Some (qz_id q) = quizId \<and> qz_user_id q = userId))
                                      (quizzes d1) \<rparr>))"

subsection \<open>Questions\<close>

record question_data =
  quiz_id :: int
  question_text :: jsval
  option_a :: jsval
  option_b :: jsval
  option_c :: jsval
  option_d :: jsval
  correct_answer :: jsval
  question_order :: int

text \<open>
  \<^verbatim>\<open>addQuestion\<close>: one \<^verbatim>\<open>INSERT INTO questions\<close>.  \<^verbatim>\<open>question_text\<close>,
  \<^verbatim>\<open>option_a\<close>, \<^verbatim>\<open>option_b\<close> and \<^verbatim>\<open>correct_answer\<close> are \<^verbatim>\<open>NOT NULL\<close>;
  \<^verbatim>\<open>option_c\<close> and \<^verbatim>\<open>option_d\<close> may be NULL.
\<close>

definition question_violates :: "question_data \<Rightarrow> bool" where
  "question_violates qd =
     (bind (question_text qd) = SNull \<or> bind (option_a qd) = SNull
      \<or> bind (option_b qd) = SNull \<or> bind (correct_answer qd) = SNull)"

definition question_row_of :: "runtime \<Rightarrow> int \<Rightarrow> question_data \<Rightarrow> question_row" where
  "question_row_of rt i qd =
     \<lparr> qn_id = i, qn_quiz_id = quiz_id qd,
       qn_question_text = text_affinity rt (bind (question_text qd)),
       qn_option_a = text_affinity rt (bind (option_a qd)),
       qn_option_b = text_affinity rt (bind (option_b qd)),
       qn_option_c = text_affinity rt (bind (option_c qd)),
       qn_option_d = text_affinity rt (bind (option_d qd)),
       qn_correct_answer = integer_affinity rt (bind (correct_answer qd)),
       qn_question_order = question_order qd \<rparr>"

definition addQuestion ::
  "runtime \<Rightarrow> bool \<Rightarrow> question_data \<Rightarrow> db \<Rightarrow> sql_error option \<times> db" where
  "addQuestion rt io questionData d =
     (let i = next_id (seq_questions d) (map qn_id (questions d))
      in if io then (Some SQLITE_IOERR, d)
         else if question_violates questionData then (Some SQLITE_CONSTRAINT, d)
         else (None,
               d\<lparr> questions := questions d @ [question_row_of rt i questionData],
                  seq_questions := i \<rparr>))"

subsection \<open>Results\<close>

text \<open>
  \<^verbatim>\<open>answers\<close> is arbitrary JSON; the model carries it as the text
  \<^verbatim>\<open>JSON.stringify\<close> gives for it, and \<open>None\<close> when the property is missing:
  \<^verbatim>\<open>JSON.stringify(undefined)\<close> is \<^verbatim>\<open>undefined\<close>, which is bound as NULL.
\<close>

record result_data =
  r_quiz_id :: jsval
  r_user_id :: int
  r_score :: jsval
  r_total_questions :: jsval
  r_time_taken :: jsval
  r_answers :: "string option"

definition json_stringify :: "string option \<Rightarrow> jsval" where
  "json_stringify a = (case a of None \<Rightarrow> JUndefined | Some s \<Rightarrow> JStr s)"

text \<open>\<^verbatim>\<open>saveResult\<close>: one \<^verbatim>\<open>INSERT INTO quiz_results\<close>, every column \<^verbatim>\<open>NOT NULL\<close>.\<close>

definition saveResult ::
  "runtime \<Rightarrow> bool \<Rightarrow> result_data \<Rightarrow> db \<Rightarrow> (sql_error + int) \<times> db" where
  "saveResult rt io resultData d =
     (let q = integer_affinity rt (bind (r_quiz_id resultData));
          s = integer_affinity rt (bind (r_score resultData));
          t = integer_affinity rt (bind (r_total_questions resultData));
          m = integer_affinity rt (bind (r_time_taken resultData));
          a = text_affinity rt (bind (json_stringify (r_answers resultData)));
          i = next_id (seq_results d) (map rs_id (quiz_results d))
      in if io then (Inl SQLITE_IOERR, d)
         else if q = SNull \<or> s = SNull \<or> t = SNull \<or> m = SNull \<or> a = SNull
           then (Inl SQLITE_CONSTRAINT, d)
         else (Inr i,
               d\<lparr> quiz_results := quiz_results d @
                      [\<lparr> rs_id = i, rs_quiz_id = q, rs_user_id = r_user_id resultData,
                         rs_score = s, rs_total_questions = t, rs_time_taken = m,
                         rs_answers = a \<rparr>],
                  seq_results := i \<rparr>))"

section \<open>\<^verbatim>\<open>Server.js\<close>: the request handlers\<close>

text \<open>
  A handler takes the runtime, the fault flags of the statements it issues (in the order
  it issues them), the database, the authenticated caller's \<^verbatim>\<open>req.user.userId\<close> where
  the route is behind \<^verbatim>\<open>authenticateToken\<close>, and the request body; it returns the
  database afterwards and the response sent.  \<^verbatim>\<open>res.json\<close> without \<^verbatim>\<open>res.status\<close> is
  status 200.
\<close>

record user_view =
  uv_id :: int
  uv_username :: jsval
  uv_email :: jsval

datatype payload =
    Error string
  | Auth string string user_view
  | QuizCreated string int
  | Quiz quiz_view
  | ResultSaved string int
  | Message string

record response =
  status :: nat
  body :: payload

definition respond :: "nat \<Rightarrow> payload \<Rightarrow> response" where
  "respond c b = \<lparr> status = c, body = b \<rparr>"

text \<open>
  An exception thrown synchronously inside a route handler reaches the error-handling
  middleware at the end of \<^verbatim>\<open>Server.js\<close>.
\<close>

definition internal_error :: response where
  "internal_error = respond 500 (Error ''Internal server error'')"

text \<open>
  \<^verbatim>\<open>x.trim()\<close> on a truthy value: only strings have the method, anything else throws a
  \<^verbatim>\<open>TypeError\<close> (\<open>None\<close>).
\<close>

fun js_trim :: "runtime \<Rightarrow> jsval \<Rightarrow> string option" where
  "js_trim rt (JStr s) = Some (string_trim rt s)"
| "js_trim rt v = None"

text \<open>\<^verbatim>\<open>description ? description.trim() : ''\<close>.\<close>

definition description_text :: "runtime \<Rightarrow> jsval \<Rightarrow> string option" where
  "description_text rt v = (if truthy v then js_trim rt v else Some [])"

text \<open>
  \<^verbatim>\<open>password.length < 6\<close> on a truthy value: numbers and booleans have no length, and
  \<^verbatim>\<open>undefined < 6\<close> is false.
\<close>

fun shorter_than :: "runtime \<Rightarrow> jsval \<Rightarrow> nat \<Rightarrow> bool" where
  "shorter_than rt (JStr s) n = (string_length rt s < n)"
| "shorter_than rt v n = False"

subsection \<open>Register and login\<close>

text \<open>
  \<^verbatim>\<open>bcryptjs\<close> and \<^verbatim>\<open>jsonwebtoken\<close> are libraries outside the repository; the handlers
  are parametrised by what they compute.  Both \<^verbatim>\<open>bcrypt.hash\<close> and
  \<^verbatim>\<open>bcrypt.compare\<close> report an error when an argument is not a string.
\<close>

record crypto =
  bcrypt_hash :: "string \<Rightarrow> string"
  bcrypt_compare :: "string \<Rightarrow> string \<Rightarrow> bool"
  jwt_sign :: "int \<Rightarrow> jsval \<Rightarrow> string"

fun hash_password :: "crypto \<Rightarrow> jsval \<Rightarrow> string option" where
  "hash_password lib (JStr s) = Some (bcrypt_hash lib s)"
| "hash_password lib v = None"

fun compare_password :: "crypto \<Rightarrow> jsval \<Rightarrow> sqlval \<Rightarrow> bool option" where
  "compare_password lib (JStr s) (SText h) = Some (bcrypt_compare lib s h)"
| "compare_password lib v w = None"

record register_body =
  reg_username :: jsval
  reg_email :: jsval
  reg_password :: jsval

definition register_handler ::
  "runtime \<Rightarrow> crypto \<Rightarrow> bool list \<Rightarrow> db \<Rightarrow> register_body \<Rightarrow> db \<times> response" where
  "register_handler rt lib fs d rq =
     (let username = reg_username rq; email = reg_email rq; password = reg_password rq
      in if \<not> truthy username \<or> \<not> truthy email \<or> \<not> truthy password
           then (d, respond 400 (Error ''All fields are required''))
         else if shorter_than rt password 6
           then (d, respond 400 (Error ''Password must be at least 6 characters long''))
         else case getUserByEmail rt (fault fs 0) email d of
                Inl err \<Rightarrow> (d, respond 500 (Error ''Database error''))
              | Inr (Some existingUser) \<Rightarrow> (d, respond 400 (Error ''User already exists''))
              | Inr None \<Rightarrow>
                  (case hash_password lib password of
                     None \<Rightarrow> (d, respond 500 (Error ''Server error''))
                   | Some hashedPassword \<Rightarrow>
                       (case createUser rt (fault fs 1) username email (JStr hashedPassword) d of
                          (Inl err, d1) \<Rightarrow> (d1, respond 500 (Error ''Error creating user''))
                        | (Inr userId, d1) \<Rightarrow>
                            (d1, respond 201
                                   (Auth ''User created successfully''
                                      (jwt_sign lib userId username)
                                      \<lparr> uv_id = userId, uv_username = username,
                                        uv_email = email \<rparr>)))))"

record login_body =
  login_email :: jsval
  login_password :: jsval

definition login_handler ::
  "runtime \<Rightarrow> crypto \<Rightarrow> bool list \<Rightarrow> db \<Rightarrow> login_body \<Rightarrow> response" where
  "login_handler rt lib fs d rq =
     (let email = login_email rq; password = login_password rq
      in if \<not> truthy email \<or> \<not> truthy password
           then respond 400 (Error ''Email and password are required'')
         else case getUserByEmail rt (fault fs 0) email d of
                Inl err \<Rightarrow> respond 500 (Error ''Database error'')
              | Inr None \<Rightarrow> respond 400 (Error ''Invalid credentials'')
              | Inr (Some user) \<Rightarrow>
                  (case compare_password lib password (u_password user) of
                     None \<Rightarrow> respond 500 (Error ''Server error'')
                   | Some validPassword \<Rightarrow>
                       if \<not> validPassword then respond 400 (Error ''Invalid credentials'')
                       else respond 200
                              (Auth ''Login successful''
                                 (jwt_sign lib (u_id user) (column (u_username user)))
                                 \<lparr> uv_id = u_id user, uv_username = column (u_username user),
                                   uv_email = column (u_email user) \<rparr>)))"

subsection \<open>Create quiz\<close>

text \<open>
  The body of \<^verbatim>\<open>POST /api/quizzes\<close>.  A question is an object with the properties
  \<^verbatim>\<open>text\<close>, \<^verbatim>\<open>options\<close> and \<^verbatim>\<open>correct\<close>, each possibly missing (an element that is
  neither an object nor \<^verbatim>\<open>null\<close> has none of them).  \<open>q_options\<close> lists what
  \<^verbatim>\<open>options[0]\<close>, \<^verbatim>\<open>options[1]\<close>, ... read, and is \<open>None\<close> when \<^verbatim>\<open>options\<close> is missing
  or cannot be indexed.
\<close>

record question_body =
  q_text :: jsval
  q_options :: "jsval list option"
  q_correct :: jsval

text \<open>
  The \<^verbatim>\<open>questions\<close> field is a falsy value (missing, \<^verbatim>\<open>null\<close>, 0, the empty string,
  \<^verbatim>\<open>false\<close>), or a truthy value that is not an array (the flag says whether its
  \<^verbatim>\<open>length\<close> property is 0; it has no \<^verbatim>\<open>forEach\<close>), or an array, whose elements are
  questions or \<^verbatim>\<open>null\<close> (\<open>None\<close>).
\<close>

datatype questions_field =
    NoQuestions
  | NonArray bool
  | QuestionArray "question_body option list"

record quiz_body =
  b_title :: jsval
  b_description :: jsval
  b_timeLimit :: jsval
  b_questions :: questions_field

text \<open>\<^verbatim>\<open>!questions || questions.length === 0\<close>.\<close>

fun questions_rejected :: "questions_field \<Rightarrow> bool" where
  "questions_rejected NoQuestions = True"
| "questions_rejected (NonArray zero_length) = zero_length"
| "questions_rejected (QuestionArray qs) = (qs = [])"

text \<open>\<^verbatim>\<open>question.options || []\<close>.\<close>

definition supplied_options :: "question_body \<Rightarrow> jsval list" where
  "supplied_options question = (case q_options question of None \<Rightarrow> [] | Some os \<Rightarrow> os)"

text \<open>The \<^verbatim>\<open>questionData\<close> object built for the question at position \<open>index\<close>.\<close>

definition questionData :: "int \<Rightarrow> nat \<Rightarrow> question_body \<Rightarrow> question_data" where
  "questionData quizId index question =
     (let opts = supplied_options question
      in \<lparr> quiz_id = quizId,
           question_text = q_text question,
           option_a = js_or (js_index opts 0) (JStr []),
           option_b = js_or (js_index opts 1) (JStr []),
           option_c = js_or (js_index opts 2) JNull,
           option_d = js_or (js_index opts 3) JNull,
           correct_answer = q_correct question,
           question_order = int index \<rparr>)"

text \<open>
  The variables the \<^verbatim>\<open>addQuestion\<close> callbacks share, and the response once one of them
  has sent it.
\<close>

record progress =
  questionsAdded :: nat
  hasError :: bool
  sent :: "response option"

definition start :: progress where
  "start = \<lparr> questionsAdded = 0, hasError = False, sent = None \<rparr>"

text \<open>
  The callback of one \<^verbatim>\<open>addQuestion\<close>, where \<open>n\<close> is \<^verbatim>\<open>questions.length\<close>: \<open>err\<close>
  says whether the write failed.
\<close>

definition question_done :: "nat \<Rightarrow> int \<Rightarrow> bool \<Rightarrow> progress \<Rightarrow> progress" where
  "question_done n quizId err st =
     (let st1 = (if err then st\<lparr> hasError := True \<rparr> else st);
          st2 = st1\<lparr> questionsAdded := questionsAdded st1 + 1 \<rparr>
      in if questionsAdded st2 = n
           then (if hasError st2
                   then st2\<lparr> sent := Some (respond 500 (Error ''Some questions failed to save'')) \<rparr>
                 else st2\<lparr> sent := Some (respond 201
                                            (QuizCreated ''Quiz created successfully'' quizId)) \<rparr>)
         else st2)"

text \<open>
  \<^verbatim>\<open>forEach\<close> queues one insert per question without waiting.  Reading a property of a
  \<^verbatim>\<open>null\<close> element throws, which ends the loop: the questions before the first
  \<^verbatim>\<open>null\<close> are queued, the others are not.
\<close>

fun queued_before_null :: "question_body option list \<Rightarrow> question_body list" where
  "queued_before_null [] = []"
| "queued_before_null (None # qs) = []"
| "queued_before_null (Some q # qs) = q # queued_before_null qs"

text \<open>
  The engine then runs the queued inserts and calls each callback when its insert has
  settled.  The order in which the queued inserts settle is not fixed by the code, so it
  is a parameter: \<open>sched\<close> lists positions in the order they settle, and a position it does
  not list settles after the listed ones, in submission order.  \<open>exec_order sched n\<close> is
  always a permutation of the \<open>n\<close> positions, and every permutation is \<open>exec_order\<close> of
  itself.
\<close>

definition exec_order :: "nat list \<Rightarrow> nat \<Rightarrow> nat list" where
  "exec_order sched n =
     (let s = remdups (filter (\<lambda>j. j < n) sched)
      in s @ filter (\<lambda>j. j \<notin> set s) [0..<n])"

fun run_inserts ::
  "runtime \<Rightarrow> nat \<Rightarrow> int \<Rightarrow> (bool \<times> question_data) list \<Rightarrow> db \<times> progress
     \<Rightarrow> db \<times> progress" where
  "run_inserts rt n quizId [] s = s"
| "run_inserts rt n quizId ((io, qd) # rest) (d, st) =
     (case addQuestion rt io qd d of
        (err, d1) \<Rightarrow>
          run_inserts rt n quizId rest (d1, question_done n quizId (err \<noteq> None) st))"

text \<open>
  The body of the \<^verbatim>\<open>createQuiz\<close> callback once the quiz row exists, observed when
  \<open>k\<close> of the queued question inserts have settled: the database then, and the
  response if one has been sent.  Statement 0 of the handler is the quiz insert, statement
  \<open>j + 1\<close> the insert of the question at position \<open>j\<close>.  A value without
  \<^verbatim>\<open>forEach\<close> throws at once; the exception is thrown inside a database callback, where
  nothing catches it, so no response is ever sent.
\<close>

definition add_questions ::
  "nat \<Rightarrow> runtime \<Rightarrow> bool list \<Rightarrow> nat list \<Rightarrow> int \<Rightarrow> questions_field \<Rightarrow> db
     \<Rightarrow> db \<times> response option" where
  "add_questions k rt fs sched quizId questions_value d1 =
     (case questions_value of
        QuestionArray qs \<Rightarrow>
          (let n = length qs;
               queued = map (\<lambda>(index, question). questionData quizId index question)
                          (enumerate 0 (queued_before_null qs));
               settled = map (\<lambda>j. (fault fs (Suc j), queued ! j))
                           (take k (exec_order sched (length queued)))
           in case run_inserts rt n quizId settled (d1, start) of
                (d2, st) \<Rightarrow> (d2, sent st))
      | other \<Rightarrow> (d1, None))"

text \<open>The whole handler, observed at the same moments.\<close>

definition create_quiz_after ::
  "nat \<Rightarrow> runtime \<Rightarrow> bool list \<Rightarrow> nat list \<Rightarrow> db \<Rightarrow> int \<Rightarrow> quiz_body
     \<Rightarrow> db \<times> response option" where
  "create_quiz_after k rt fs sched d userId rq =
     (if \<not> truthy (b_title rq) then (d, Some (respond 400 (Error ''Quiz title is required'')))
      else case js_trim rt (b_title rq) of
        None \<Rightarrow> (d, Some internal_error)
      | Some t \<Rightarrow>
          if t = [] then (d, Some (respond 400 (Error ''Quiz title is required'')))
          else if questions_rejected (b_questions rq)
            then (d, Some (respond 400 (Error ''At least one question is required'')))
          else (case description_text rt (b_description rq) of
                  None \<Rightarrow> (d, Some internal_error)
                | Some desc \<Rightarrow>
                    (case createQuiz rt (fault fs 0)
                            \<lparr> title = JStr t, description = JStr desc,
                              time_limit = js_or (b_timeLimit rq) (JNum 10),
                              user_id = userId \<rparr> d
                     of (Inl err, d1) \<Rightarrow>
                          (d1, Some (respond 500 (Error ''Failed to create quiz'')))
                      | (Inr quizId, d1) \<Rightarrow>
                          add_questions k rt fs sched quizId (b_questions rq) d1)))"

text \<open>The handler itself: the state of affairs when every queued insert has settled.\<close>

definition queued_count :: "questions_field \<Rightarrow> nat" where
  "queued_count questions_value =
     (case questions_value of
        QuestionArray qs \<Rightarrow> length (queued_before_null qs)
      | other \<Rightarrow> 0)"

definition create_quiz_handler ::
  "runtime \<Rightarrow> bool list \<Rightarrow> nat list \<Rightarrow> db \<Rightarrow> int \<Rightarrow> quiz_body \<Rightarrow> db \<times> response option" where
  "create_quiz_handler rt fs sched d userId rq =
     create_quiz_after (queued_count (b_questions rq)) rt fs sched d userId rq"

subsection \<open>Get quiz, delete quiz\<close>

definition get_quiz_handler :: "bool list \<Rightarrow> db \<Rightarrow> int option \<Rightarrow> response" where
  "get_quiz_handler fs d quizId =
     (case getQuizById (fault fs 0) (fault fs 1) quizId d of
        Inl err \<Rightarrow> respond 500 (Error ''Failed to fetch quiz'')
      | Inr None \<Rightarrow> respond 404 (Error ''Quiz not found'')
      | Inr (Some quiz) \<Rightarrow> respond 200 (Quiz quiz))"

definition delete_quiz_handler ::
  "bool list \<Rightarrow> db \<Rightarrow> int \<Rightarrow> int option \<Rightarrow> db \<times> response" where
  "delete_quiz_handler fs d userId quizId =
     (case deleteQuiz (fault fs 0) (fault fs 1) quizId userId d of
        (Inl err, d1) \<Rightarrow> (d1, respond 500 (Error ''Failed to delete quiz''))
      | (Inr changes, d1) \<Rightarrow>
          if changes = 0 then (d1, respond 404 (Error ''Quiz not found or access denied''))
          else (d1, respond 200 (Message ''Quiz deleted successfully'')))"

subsection \<open>Save quiz result\<close>

record result_body =
  res_quizId :: jsval
  res_score :: jsval
  res_totalQuestions :: jsval
  res_timeTaken :: jsval
  res_answers :: "string option"

definition save_result_handler ::
  "runtime \<Rightarrow> bool list \<Rightarrow> db \<Rightarrow> int \<Rightarrow> result_body \<Rightarrow> db \<times> response" where
  "save_result_handler rt fs d userId rq =
     (if \<not> truthy (res_quizId rq) \<or> res_score rq = JUndefined
         \<or> \<not> truthy (res_totalQuestions rq) \<or> \<not> truthy (res_timeTaken rq)
        then (d, respond 400 (Error ''Missing required fields''))
      else case saveResult rt (fault fs 0)
                  \<lparr> r_quiz_id = res_quizId rq, r_user_id = userId, r_score = res_score rq,
                    r_total_questions = res_totalQuestions rq,
                    r_time_taken = res_timeTaken rq, r_answers = res_answers rq \<rparr> d
           of (Inl err, d1) \<Rightarrow> (d1, respond 500 (Error ''Failed to save results''))
            | (Inr resultId, d1) \<Rightarrow>
                (d1, respond 200 (ResultSaved ''Results saved successfully'' resultId)))"

section \<open>Notions used in the statements\<close>

text \<open>A user row already holds this email, or this username, as the column would store it.\<close>

definition email_taken :: "runtime \<Rightarrow> db \<Rightarrow> jsval \<Rightarrow> bool" where
  "email_taken rt d email =
     list_ex (\<lambda>r. u_email r = text_affinity rt (bind email)) (users d)"

definition username_taken :: "runtime \<Rightarrow> db \<Rightarrow> jsval \<Rightarrow> bool" where
  "username_taken rt d username =
     list_ex (\<lambda>r. u_username r = text_affinity rt (bind username)) (users d)"

text \<open>
  Position \<open>i\<close> of an option list is absent: the list is too short, or holds
  \<^verbatim>\<open>null\<close> there.
\<close>

definition absent :: "jsval list \<Rightarrow> nat \<Rightarrow> bool" where
  "absent opts i = (js_index opts i = JUndefined \<or> js_index opts i = JNull)"

text \<open>
  A question's options as the quiz editor submits them: two to four non-empty strings and
  the position of the correct one.  A well-formed question has a text besides.
\<close>

fun is_string :: "jsval \<Rightarrow> bool" where
  "is_string (JStr s) = True"
| "is_string v = False"

fun valid_index :: "jsval \<Rightarrow> jsval list \<Rightarrow> bool" where
  "valid_index (JNum c) os = (of_int \<lfloor>c\<rfloor> = c \<and> 0 \<le> c \<and> c < of_nat (length os))"
| "valid_index v os = False"

definition well_formed_options :: "question_body \<Rightarrow> bool" where
  "well_formed_options q =
     (2 \<le> length (supplied_options q) \<and> length (supplied_options q) \<le> 4
      \<and> list_all (\<lambda>opt. is_string opt \<and> opt \<noteq> JStr []) (supplied_options q)
      \<and> valid_index (q_correct q) (supplied_options q))"

definition well_formed_question :: "question_body \<Rightarrow> bool" where
  "well_formed_question q = (bind (q_text q) \<noteq> SNull \<and> well_formed_options q)"

text \<open>What comes back for a value written to a \<^verbatim>\<open>TEXT\<close> column (a string: itself).\<close>

definition stored_text :: "runtime \<Rightarrow> jsval \<Rightarrow> jsval" where
  "stored_text rt v = column (text_affinity rt (bind v))"

text \<open>A fetched question agrees with a submitted one.\<close>

definition same_question :: "runtime \<Rightarrow> question_view \<Rightarrow> question_body \<Rightarrow> bool" where
  "same_question rt v q =
     (qv_text v = stored_text rt (q_text q) \<and> qv_options v = supplied_options q
      \<and> qv_correct v = q_correct q \<and> valid_index (qv_correct v) (qv_options v))"

text \<open>
  Quiz ids come from \<^verbatim>\<open>AUTOINCREMENT\<close> only, and a question row gets its
  \<^verbatim>\<open>quiz_id\<close> from the quiz insert just before it: no row refers to an id the quizzes
  table has not handed out yet.  Every handler keeps this (lemmas \<open>*_wf\<close> below).
\<close>

definition wf_db :: "db \<Rightarrow> bool" where
  "wf_db d = (list_all (\<lambda>q. qz_id q \<le> seq_quizzes d) (quizzes d)
              \<and> list_all (\<lambda>q. qn_quiz_id q \<le> seq_quizzes d) (questions d))"

text \<open>A queued question insert fails: the engine faults, or a NOT NULL column gets NULL.\<close>

definition write_fails :: "bool \<times> question_data \<Rightarrow> bool" where
  "write_fails job = (fst job \<or> question_violates (snd job))"

text \<open>The callbacks of a run of settled inserts, given which of them failed.\<close>

definition settle :: "nat \<Rightarrow> int \<Rightarrow> bool list \<Rightarrow> progress \<Rightarrow> progress" where
  "settle n quizId errs st = foldl (\<lambda>s e. question_done n quizId e s) st errs"

text \<open>
  The id the next quiz gets, the quiz row the handler inserts, the database with it, and
  the inserts settled so far when all questions are objects.
\<close>

definition next_quiz_id :: "db \<Rightarrow> int" where
  "next_quiz_id d = next_id (seq_quizzes d) (map qz_id (quizzes d))"

definition new_quiz :: "runtime \<Rightarrow> db \<Rightarrow> int \<Rightarrow> string \<Rightarrow> string \<Rightarrow> jsval \<Rightarrow> quiz_row" where
  "new_quiz rt d userId t desc timeLimit =
     \<lparr> qz_id = next_quiz_id d, qz_title = SText t, qz_description = SText desc,
       qz_time_limit = integer_affinity rt (bind (js_or timeLimit (JNum 10))),
       qz_user_id = userId \<rparr>"

definition with_quiz :: "db \<Rightarrow> quiz_row \<Rightarrow> db" where
  "with_quiz d q = d\<lparr> quizzes := quizzes d @ [q], seq_quizzes := qz_id q \<rparr>"

definition settled_jobs ::
  "nat \<Rightarrow> bool list \<Rightarrow> nat list \<Rightarrow> int \<Rightarrow> question_body list \<Rightarrow> (bool \<times> question_data) list" where
  "settled_jobs k fs sched quizId qs =
     map (\<lambda>j. (fault fs (Suc j), questionData quizId j (qs ! j)))
       (take k (exec_order sched (length qs)))"

text \<open>A question row without its row id, which depends on the settling order.\<close>

definition erase_id :: "question_row \<Rightarrow> question_row" where
  "erase_id r = r\<lparr> qn_id := 0 \<rparr>"

section \<open>Sample data\<close>

text \<open>
  A stand-in runtime that trims the six ASCII white-space characters and counts
  characters (what JavaScript does on ASCII strings); the sample data stores no
  floating-point value and no text in an \<^verbatim>\<open>INTEGER\<close> column, so the three SQLite
  conversions are never consulted on it.  And stand-ins for the two libraries: hashing
  prefixes the password.
\<close>

definition is_space :: "char \<Rightarrow> bool" where
  "is_space c = (c = CHR 0x09 \<or> c = CHR 0x0A \<or> c = CHR 0x0B \<or> c = CHR 0x0C
                 \<or> c = CHR 0x0D \<or> c = CHR 0x20)"

definition ascii_trim :: "string \<Rightarrow> string" where
  "ascii_trim s = rev (dropWhile is_space (rev (dropWhile is_space s)))"

definition rt0 :: runtime where
  "rt0 = \<lparr> string_trim = ascii_trim, string_length = length,
            real_text = (\<lambda>q. (''0'', ''0'')), numeric_text = (\<lambda>s. None),
            real_integer = (\<lambda>q. None) \<rparr>"

definition lib0 :: crypto where
  "lib0 = \<lparr> bcrypt_hash = (\<lambda>s. ''$2a$'' @ s),
            bcrypt_compare = (\<lambda>s h. h = ''$2a$'' @ s),
            jwt_sign = (\<lambda>i u. ''token'') \<rparr>"

text \<open>Two users; user 1 owns quiz 1, which has one question.\<close>

definition db_quiz :: db where
  "db_quiz =
     \<lparr> users = [\<lparr> u_id = 1, u_username = SText ''alice'',
                  u_email = SText ''alice@example.com'', u_password = SText ''$2a$secret1'' \<rparr>,
                \<lparr> u_id = 2, u_username = SText ''bob'',
                  u_email = SText ''bob@example.com'', u_password = SText ''$2a$hunter22'' \<rparr>],
       quizzes = [\<lparr> qz_id = 1, qz_title = SText ''T'', qz_description = SText [],
                    qz_time_limit = SInt 10, qz_user_id = 1 \<rparr>],
       questions = [\<lparr> qn_id = 1, qn_quiz_id = 1, qn_question_text = SText ''Q1'',
                      qn_option_a = SText ''A'', qn_option_b = SText ''B'',
                      qn_option_c = SNull, qn_option_d = SNull,
                      qn_correct_answer = SInt 0, qn_question_order = 0 \<rparr>],
       quiz_results = [],
       seq_users = 2, seq_quizzes = 1, seq_questions = 1, seq_results = 0 \<rparr>"

definition question_ab :: question_body where
  "question_ab = \<lparr> q_text = JStr ''Q1'', q_options = Some [JStr ''A'', JStr ''B''],
                   q_correct = JNum 0 \<rparr>"

definition question_cde :: question_body where
  "question_cde = \<lparr> q_text = JStr ''Q2'',
                    q_options = Some [JStr ''C'', JStr ''D'', JStr ''E''],
                    q_correct = JNum 2 \<rparr>"

definition question_untitled :: question_body where
  "question_untitled = \<lparr> q_text = JUndefined, q_options = Some [JStr ''A'', JStr ''B''],
                         q_correct = JNum 0 \<rparr>"

definition quiz_of :: "question_body list \<Rightarrow> quiz_body" where
  "quiz_of qs = \<lparr> b_title = JStr ''T'', b_description = JUndefined, b_timeLimit = JNum 0,
                  b_questions = QuestionArray (map Some qs) \<rparr>"

definition register_alice_again :: register_body where
  "register_alice_again = \<lparr> reg_username = JStr ''carol'',
                            reg_email = JStr ''alice@example.com'',
                            reg_password = JStr ''secret2'' \<rparr>"

definition register_second_alice :: register_body where
  "register_second_alice = \<lparr> reg_username = JStr ''alice'',
                             reg_email = JStr ''alice2@example.com'',
                             reg_password = JStr ''secret2'' \<rparr>"

definition login_unknown :: login_body where
  "login_unknown = \<lparr> login_email = JStr ''nobody@example.com'',
                     login_password = JStr ''secret1'' \<rparr>"

definition login_wrong_password :: login_body where
  "login_wrong_password = \<lparr> login_email = JStr ''alice@example.com'',
                            login_password = JStr ''letmein'' \<rparr>"

text \<open>The same password, the JSON number 123456, for a registered and an unknown email.\<close>

definition login_number_registered :: login_body where
  "login_number_registered = \<lparr> login_email = JStr ''alice@example.com'',
                               login_password = JNum 123456 \<rparr>"

definition login_number_unknown :: login_body where
  "login_number_unknown = \<lparr> login_email = JStr ''nobody@example.com'',
                            login_password = JNum 123456 \<rparr>"

definition result_of :: "jsval \<Rightarrow> jsval \<Rightarrow> string option \<Rightarrow> result_body" where
  "result_of asked taken answers =
     \<lparr> res_quizId = JNum 1, res_score = JNum 0, res_totalQuestions = asked,
       res_timeTaken = taken, res_answers = answers \<rparr>"

section \<open>Facts about the building blocks\<close>

lemma no_faults_fault: "no_faults fs \<Longrightarrow> \<not> fault fs k"
  by (auto simp: no_faults_def fault_def list_all_length)

lemma find_Some_ex: "(\<exists>u. find P xs = Some u) = list_ex P xs"
  by (induction xs) auto

lemma find_None_ex: "(find P xs = None) = (\<not> list_ex P xs)"
  by (induction xs) auto

lemma find_append_None: "find P xs = None \<Longrightarrow> find P (xs @ ys) = find P ys"
  by (induction xs) (auto split: if_splits)


lemma text_affinity_null: "(text_affinity rt v = SNull) = (v = SNull)"
  by (cases v) simp_all

lemma integer_affinity_null: "(integer_affinity rt v = SNull) = (v = SNull)"
  by (cases v) (simp_all split: option.split sum.split)

lemma truthy_bind: "truthy v \<Longrightarrow> bind v \<noteq> SNull"
  by (cases v) auto

lemma truthy_bound: "truthy v \<Longrightarrow> text_affinity rt (bind v) \<noteq> SNull"
  by (simp add: text_affinity_null truthy_bind)

lemma decimal_not_empty: "decimal n \<noteq> []"
  by (simp add: decimal_def)

lemma text_affinity_not_empty: "truthy v \<Longrightarrow> text_affinity rt (bind v) \<noteq> SText []"
  by (cases v) (auto simp: decimal_not_empty)

lemma bind_index: "of_int \<lfloor>c\<rfloor> = c \<Longrightarrow> 0 \<le> c \<Longrightarrow> c < of_nat n \<Longrightarrow> n \<le> 4
    \<Longrightarrow> column (integer_affinity rt (bind (JNum c))) = JNum c"
  by (simp add: is_int32_def)

text \<open>The next id is larger than every id in the table and than the counter.\<close>

lemma fold_max_ge: "seq \<le> fold max ids seq \<and> (\<forall>i\<in>set ids. i \<le> fold max ids (seq::int))"
proof (induction ids arbitrary: seq)
  case Nil
  show ?case by simp
next
  case (Cons i ids)
  show ?case
    using Cons.IH [of "max i seq"] by auto
qed

lemma next_id_above: "seq < next_id seq ids" "i \<in> set ids \<Longrightarrow> i < next_id seq ids"
  using fold_max_ge [of seq ids] by (auto simp: next_id_def)

lemma next_id_counter: "list_all (\<lambda>i. i \<le> seq) ids \<Longrightarrow> next_id seq ids = seq + 1"
proof (induction ids)
  case Nil
  show ?case by (simp add: next_id_def)
next
  case (Cons i ids)
  then show ?case by (simp add: next_id_def max_absorb2)
qed

lemma sql_eq_truthy:
  "truthy v \<Longrightarrow> sql_eq a (text_affinity rt (bind v)) = (a = text_affinity rt (bind v))"
  using truthy_bound [of v rt] by (auto simp: sql_eq_def)

lemma getUserByEmail_taken:
  "truthy email \<Longrightarrow>
     (\<exists>u. getUserByEmail rt False email d = Inr (Some u)) = email_taken rt d email"
  by (simp add: getUserByEmail_def email_taken_def sql_eq_truthy find_Some_ex)

lemma getUserByEmail_free:
  "truthy email \<Longrightarrow> (getUserByEmail rt False email d = Inr None) = (\<not> email_taken rt d email)"
  by (simp add: getUserByEmail_def email_taken_def sql_eq_truthy find_None_ex)

section \<open>Saving a result\<close>

text \<open>
  Claim C9.  A save-result request whose \<^verbatim>\<open>timeTaken\<close> is 0, or whose
  \<^verbatim>\<open>totalQuestions\<close> is 0, is answered 400 ``Missing required fields'', whatever the
  other fields and whatever the engine would do: the database is the one before the
  request, no statement is issued.
\<close>

theorem save_result_rejects_zero:
  "res_timeTaken rq = JNum 0 \<or> res_totalQuestions rq = JNum 0 \<Longrightarrow>
   save_result_handler rt fs d userId rq = (d, respond 400 (Error ''Missing required fields''))"
  by (auto simp: save_result_handler_def)

theorem save_result_rejects_zero_witness:
  "res_timeTaken (result_of (JNum 5) (JNum 0) (Some ''[]'')) = JNum 0
   \<and> save_result_handler rt0 [] db_quiz 2 (result_of (JNum 5) (JNum 0) (Some ''[]''))
       = (db_quiz, respond 400 (Error ''Missing required fields''))"
proof -
  have h: "res_timeTaken (result_of (JNum 5) (JNum 0) (Some ''[]'')) = JNum 0"
    by (simp add: result_of_def)
  show ?thesis
    using h save_result_rejects_zero [OF disjI1 [OF h], of rt0 "[]" db_quiz 2] by simp
qed

text \<open>
  Against claim C8 as stated: quiz id, total and time are present and the score is 0, but
  the request carries no \<^verbatim>\<open>answers\<close>.  Validation lets it through, the insert violates
  \<^verbatim>\<open>answers TEXT NOT NULL\<close>, nothing is stored and the answer is 500.
\<close>

theorem result_without_answers_not_saved:
  "save_result_handler rt0 [] db_quiz 2 (result_of (JNum 5) (JNum 30) None)
     = (db_quiz, respond 500 (Error ''Failed to save results''))"
  by (simp add: save_result_handler_def saveResult_def result_of_def json_stringify_def
        fault_def Let_def is_int32_def)

text \<open>
  Claim C8, amended.  Take a save-result request whose quiz id, total and time are truthy
  and whose score is 0.  Validation passes.  If the request carries \<^verbatim>\<open>answers\<close> and the
  engine does not fault, exactly one row is appended to \<^verbatim>\<open>quiz_results\<close>, with score 0,
  the caller's id, the answers text and a fresh id, and the answer is 200 with that id.
  If the request carries no \<^verbatim>\<open>answers\<close>, nothing is stored and the answer is 500
  ``Failed to save results''.
\<close>

theorem save_result_zero_score:
  assumes "truthy (res_quizId rq)" and "res_score rq = JNum 0"
    and "truthy (res_totalQuestions rq)" and "truthy (res_timeTaken rq)"
  shows "(res_answers rq = Some a \<and> \<not> fault fs 0 \<longrightarrow>
           save_result_handler rt fs d userId rq =
             (d\<lparr> quiz_results := quiz_results d @
                    [\<lparr> rs_id = next_id (seq_results d) (map rs_id (quiz_results d)),
                       rs_quiz_id = integer_affinity rt (bind (res_quizId rq)),
                       rs_user_id = userId, rs_score = SInt 0,
                       rs_total_questions = integer_affinity rt (bind (res_totalQuestions rq)),
                       rs_time_taken = integer_affinity rt (bind (res_timeTaken rq)),
                       rs_answers = SText a \<rparr>],
                 seq_results := next_id (seq_results d) (map rs_id (quiz_results d)) \<rparr>,
              respond 200 (ResultSaved ''Results saved successfully''
                             (next_id (seq_results d) (map rs_id (quiz_results d))))))
       \<and> (res_answers rq = None \<longrightarrow>
           save_result_handler rt fs d userId rq
             = (d, respond 500 (Error ''Failed to save results'')))"
proof -
  have nn: "integer_affinity rt (bind (res_quizId rq)) \<noteq> SNull"
    "integer_affinity rt (bind (res_totalQuestions rq)) \<noteq> SNull"
    "integer_affinity rt (bind (res_timeTaken rq)) \<noteq> SNull"
    using assms(1,3,4) by (simp_all add: integer_affinity_null truthy_bind)
  have sc: "integer_affinity rt (bind (res_score rq)) = SInt 0"
    using assms(2) by (simp add: is_int32_def)
  have valid: "\<not> (\<not> truthy (res_quizId rq) \<or> res_score rq = JUndefined
                   \<or> \<not> truthy (res_totalQuestions rq) \<or> \<not> truthy (res_timeTaken rq))"
    using assms by simp
  show ?thesis
    using nn sc valid
    by (simp add: save_result_handler_def saveResult_def json_stringify_def Let_def)
qed

theorem save_result_zero_score_witness:
  "truthy (res_quizId (result_of (JNum 5) (JNum 30) (Some ''[1,0]'')))
   \<and> res_score (result_of (JNum 5) (JNum 30) (Some ''[1,0]'')) = JNum 0
   \<and> \<not> fault [] 0
   \<and> save_result_handler rt0 [] db_quiz 2 (result_of (JNum 5) (JNum 30) (Some ''[1,0]''))
       = (db_quiz\<lparr> quiz_results :=
             [\<lparr> rs_id = 1, rs_quiz_id = SInt 1, rs_user_id = 2, rs_score = SInt 0,
                rs_total_questions = SInt 5, rs_time_taken = SInt 30,
                rs_answers = SText ''[1,0]'' \<rparr>],
            seq_results := 1 \<rparr>,
          respond 200 (ResultSaved ''Results saved successfully'' 1))
   \<and> res_answers (result_of (JNum 3) (JNum 7) None) = None
   \<and> save_result_handler rt0 [] db_quiz 2 (result_of (JNum 3) (JNum 7) None)
       = (db_quiz, respond 500 (Error ''Failed to save results''))"
proof -
  let ?rq = "result_of (JNum 5) (JNum 30) (Some ''[1,0]'')"
  let ?rn = "result_of (JNum 3) (JNum 7) None"
  have h: "truthy (res_quizId ?rq)" "res_score ?rq = JNum 0" "truthy (res_totalQuestions ?rq)"
    "truthy (res_timeTaken ?rq)"
    and a: "res_answers ?rq = Some ''[1,0]''" "\<not> fault [] 0"
    by (simp_all add: result_of_def fault_def)
  have g: "truthy (res_quizId ?rn)" "res_score ?rn = JNum 0" "truthy (res_totalQuestions ?rn)"
    "truthy (res_timeTaken ?rn)"
    and n: "res_answers ?rn = None"
    by (simp_all add: result_of_def)
  have "save_result_handler rt0 [] db_quiz 2 ?rn
          = (db_quiz, respond 500 (Error ''Failed to save results''))"
    using save_result_zero_score [OF g, of "[]" "[]" rt0 db_quiz 2] n by blast
  moreover have "save_result_handler rt0 [] db_quiz 2 ?rq
       = (db_quiz\<lparr> quiz_results :=
             [\<lparr> rs_id = 1, rs_quiz_id = SInt 1, rs_user_id = 2, rs_score = SInt 0,
                rs_total_questions = SInt 5, rs_time_taken = SInt 30,
                rs_answers = SText ''[1,0]'' \<rparr>],
            seq_results := 1 \<rparr>,
          respond 200 (ResultSaved ''Results saved successfully'' 1))"
    using save_result_zero_score [OF h, of "''[1,0]''" "[]" rt0 db_quiz 2] a
    by (simp add: result_of_def db_quiz_def next_id_def is_int32_def)
  ultimately show ?thesis
    using h(1,2) a(2) n by blast
qed

section \<open>Register and login\<close>

text \<open>
  Against claim C4 as stated: the username \<^verbatim>\<open>alice\<close> is taken, the email is new.  The
  handler only looks the email up; the insert then violates \<^verbatim>\<open>username TEXT UNIQUE\<close>
  and the answer is 500, not 400.
\<close>

theorem duplicate_username_answers_500:
  "username_taken rt0 db_quiz (reg_username register_second_alice)
   \<and> register_handler rt0 lib0 [] db_quiz register_second_alice
       = (db_quiz, respond 500 (Error ''Error creating user''))"
  by (simp add: username_taken_def register_handler_def register_second_alice_def
        getUserByEmail_def createUser_def sql_eq_def fault_def lib0_def rt0_def db_quiz_def)

text \<open>
  Claim C4, amended.  For a register request that passes validation (username, email and
  password truthy, the password a string whose length is at least 6) and an engine that
  does not fault: if the email is taken, nothing is created and the answer is 400
  ``User already exists''; if the email is new and the username is taken, nothing is
  created and the answer is 500 ``Error creating user''.
\<close>

theorem register_duplicate:
  assumes "truthy (reg_username rq)" and "truthy (reg_email rq)"
    and "reg_password rq = JStr p" and "p \<noteq> []" and "6 \<le> string_length rt p"
    and "\<not> fault fs 0" and "\<not> fault fs 1"
  shows "(email_taken rt d (reg_email rq) \<longrightarrow>
            register_handler rt lib fs d rq = (d, respond 400 (Error ''User already exists'')))
       \<and> (\<not> email_taken rt d (reg_email rq) \<and> username_taken rt d (reg_username rq) \<longrightarrow>
            register_handler rt lib fs d rq = (d, respond 500 (Error ''Error creating user'')))"
proof (intro conjI impI)
  assume "email_taken rt d (reg_email rq)"
  then obtain u where "getUserByEmail rt False (reg_email rq) d = Inr (Some u)"
    using getUserByEmail_taken [OF assms(2)] by blast
  then show "register_handler rt lib fs d rq = (d, respond 400 (Error ''User already exists''))"
    using assms by (auto simp: register_handler_def Let_def)
next
  assume a: "\<not> email_taken rt d (reg_email rq) \<and> username_taken rt d (reg_username rq)"
  then have g: "getUserByEmail rt False (reg_email rq) d = Inr None"
    using getUserByEmail_free [OF assms(2)] by blast
  have c: "createUser rt False (reg_username rq) (reg_email rq) (JStr (bcrypt_hash lib p)) d
             = (Inl SQLITE_CONSTRAINT, d)"
    using a truthy_bound [OF assms(1), of rt] truthy_bound [OF assms(2), of rt]
    by (auto simp: createUser_def Let_def username_taken_def list_ex_iff)
  show "register_handler rt lib fs d rq = (d, respond 500 (Error ''Error creating user''))"
    using assms g c by (auto simp: register_handler_def Let_def)
qed

theorem register_duplicate_witness:
  "email_taken rt0 db_quiz (reg_email register_alice_again)
   \<and> register_handler rt0 lib0 [] db_quiz register_alice_again
       = (db_quiz, respond 400 (Error ''User already exists''))
   \<and> \<not> email_taken rt0 db_quiz (reg_email register_second_alice)
   \<and> username_taken rt0 db_quiz (reg_username register_second_alice)
   \<and> register_handler rt0 lib0 [] db_quiz register_second_alice
       = (db_quiz, respond 500 (Error ''Error creating user''))"
proof -
  have f: "\<not> fault [] 0" "\<not> fault [] 1"
    by (simp_all add: fault_def)
  have a: "truthy (reg_username register_alice_again)" "truthy (reg_email register_alice_again)"
    "reg_password register_alice_again = JStr ''secret2''" "''secret2'' \<noteq> []"
    "6 \<le> string_length rt0 ''secret2''"
    by (simp_all add: register_alice_again_def rt0_def)
  have b: "truthy (reg_username register_second_alice)"
    "truthy (reg_email register_second_alice)"
    "reg_password register_second_alice = JStr ''secret2''" "''secret2'' \<noteq> []"
    "6 \<le> string_length rt0 ''secret2''"
    by (simp_all add: register_second_alice_def rt0_def)
  have t: "email_taken rt0 db_quiz (reg_email register_alice_again)"
    "\<not> email_taken rt0 db_quiz (reg_email register_second_alice)"
    "username_taken rt0 db_quiz (reg_username register_second_alice)"
    by (simp_all add: email_taken_def username_taken_def register_alice_again_def
          register_second_alice_def db_quiz_def)
  show ?thesis
    using t register_duplicate [OF a f, of db_quiz lib0]
      register_duplicate [OF b f, of db_quiz lib0]
    by blast
qed

text \<open>
  Claim C5 fails on the code.  Two login requests carry the same password, the JSON number
  123456, which matches no stored hash.  For the registered email \<^verbatim>\<open>bcrypt.compare\<close>
  fails on the non-string argument and the answer is 500 ``Server error''; for the unknown
  email the comparison is never reached and the answer is 400 ``Invalid credentials''.
  The two failures are not identical: the response tells whether the email is registered.
\<close>

theorem number_password_reveals_registration:
  "login_handler rt0 lib0 [] db_quiz login_number_registered
     = respond 500 (Error ''Server error'')
   \<and> login_handler rt0 lib0 [] db_quiz login_number_unknown
       = respond 400 (Error ''Invalid credentials'')"
  by (simp add: login_handler_def login_number_registered_def login_number_unknown_def
        getUserByEmail_def sql_eq_def fault_def db_quiz_def)

theorem number_password_reveals_registration_witness:
  "login_handler rt0 lib0 [] db_quiz login_number_registered
     \<noteq> login_handler rt0 lib0 [] db_quiz login_number_unknown"
  using number_password_reveals_registration by (simp add: respond_def)

text \<open>
  The same for every database and every truthy password that is not a string: a
  registered email is answered 500.
\<close>

lemma login_non_string_password:
  assumes "truthy (login_email rq)" and "truthy (login_password rq)"
    and "\<not> is_string (login_password rq)"
    and "getUserByEmail rt False (login_email rq) d = Inr (Some user)"
    and "\<not> fault fs 0"
  shows "login_handler rt lib fs d rq = respond 500 (Error ''Server error'')"
proof -
  have "compare_password lib (login_password rq) (u_password user) = None"
    using assms(3) by (cases "login_password rq") simp_all
  then show ?thesis
    using assms by (simp add: login_handler_def Let_def)
qed

text \<open>
  What the code does achieve: when both requests carry an email and a password, an
  unknown email and a registered email whose password \<^verbatim>\<open>bcrypt.compare\<close> finds not to
  match (a string, then) are both answered 400 ``Invalid credentials''.
\<close>

lemma login_string_failures_identical:
  assumes "truthy (login_email r1)" and "truthy (login_password r1)"
    and "truthy (login_email r2)" and "truthy (login_password r2)"
    and "getUserByEmail rt False (login_email r1) d = Inr None"
    and "getUserByEmail rt False (login_email r2) d = Inr (Some user)"
    and "compare_password lib (login_password r2) (u_password user) = Some False"
    and "\<not> fault fs1 0" and "\<not> fault fs2 0"
  shows "login_handler rt lib fs1 d r1 = respond 400 (Error ''Invalid credentials'')
       \<and> login_handler rt lib fs2 d r2 = login_handler rt lib fs1 d r1"
  using assms by (simp add: login_handler_def Let_def)

section \<open>Storing questions, fetching and deleting a quiz\<close>

lemma stored_optional:
  "text_affinity rt (bind (js_or v JNull)) \<noteq> SText []"
  "v = JUndefined \<or> v = JNull \<Longrightarrow> text_affinity rt (bind (js_or v JNull)) = SNull"
  using text_affinity_not_empty [of v rt] by (auto simp: js_or_def)

text \<open>
  Claim C6.  When \<^verbatim>\<open>addQuestion\<close> stores the \<^verbatim>\<open>questionData\<close> the handler builds for
  a question, it appends one row; if the third option is absent from the supplied list the
  row's \<^verbatim>\<open>option_c\<close> is NULL, if the fourth is absent its \<^verbatim>\<open>option_d\<close> is NULL, and
  neither column ever holds the empty string.
\<close>

theorem absent_option_stored_null:
  assumes "addQuestion rt io (questionData quizId index question) d = (None, d')"
  shows "\<exists>row. questions d' = questions d @ [row]
           \<and> (absent (supplied_options question) 2 \<longrightarrow> qn_option_c row = SNull)
           \<and> (absent (supplied_options question) 3 \<longrightarrow> qn_option_d row = SNull)
           \<and> qn_option_c row \<noteq> SText [] \<and> qn_option_d row \<noteq> SText []"
proof -
  let ?qd = "questionData quizId index question"
  let ?i = "next_id (seq_questions d) (map qn_id (questions d))"
  have "questions d' = questions d @ [question_row_of rt ?i ?qd]"
    using assms by (auto simp: addQuestion_def Let_def split: if_splits)
  moreover have "option_c ?qd = js_or (js_index (supplied_options question) 2) JNull"
    "option_d ?qd = js_or (js_index (supplied_options question) 3) JNull"
    by (simp_all add: questionData_def Let_def)
  ultimately show ?thesis
    using stored_optional by (simp add: question_row_of_def absent_def)
qed

theorem absent_option_stored_null_witness:
  "addQuestion rt0 False (questionData 1 1 question_ab) db_quiz
     = (None, db_quiz\<lparr> questions := questions db_quiz @
                         [question_row_of rt0 2 (questionData 1 1 question_ab)],
                      seq_questions := 2 \<rparr>)
   \<and> absent (supplied_options question_ab) 2 \<and> absent (supplied_options question_ab) 3
   \<and> qn_option_c (question_row_of rt0 2 (questionData 1 1 question_ab)) = SNull
   \<and> qn_option_d (question_row_of rt0 2 (questionData 1 1 question_ab)) = SNull"
proof -
  let ?row = "question_row_of rt0 2 (questionData 1 1 question_ab)"
  let ?d' = "db_quiz\<lparr> questions := questions db_quiz @ [?row], seq_questions := 2 \<rparr>"
  have a: "addQuestion rt0 False (questionData 1 1 question_ab) db_quiz = (None, ?d')"
    by (simp add: addQuestion_def question_violates_def questionData_def supplied_options_def
          question_ab_def js_or_def js_index_def db_quiz_def next_id_def Let_def is_int32_def)
  have b: "absent (supplied_options question_ab) 2" "absent (supplied_options question_ab) 3"
    by (simp_all add: absent_def supplied_options_def question_ab_def js_index_def)
  obtain row where "questions ?d' = questions db_quiz @ [row]"
    "absent (supplied_options question_ab) 2 \<longrightarrow> qn_option_c row = SNull"
    "absent (supplied_options question_ab) 3 \<longrightarrow> qn_option_d row = SNull"
    using absent_option_stored_null [OF a] by blast
  then have "qn_option_c ?row = SNull" "qn_option_d ?row = SNull"
    using b by simp_all
  then show ?thesis
    using a b by blast
qed



text \<open>
  Claim C2 fails on the code.  User 2 asks to delete quiz 1, which user 1 owns.  The answer
  is 404 and the quiz row stays, as claimed, but the question rows of quiz 1 are gone:
  \<^verbatim>\<open>deleteQuiz\<close> runs \<^verbatim>\<open>DELETE FROM questions WHERE quiz_id = ?\<close> before, and without,
  the ownership test that guards the quiz row.
\<close>

theorem delete_by_non_owner_removes_questions:
  "delete_quiz_handler [] db_quiz 2 (Some 1)
     = (db_quiz\<lparr> questions := [] \<rparr>, respond 404 (Error ''Quiz not found or access denied''))
   \<and> questions db_quiz \<noteq> []"
  by (simp add: delete_quiz_handler_def deleteQuiz_def fault_def db_quiz_def)

text \<open>
  The same for every database and every caller who owns no quiz of that id: 404, the
  quizzes table untouched, every question row of that quiz id deleted.
\<close>

lemma delete_quiz_not_owner:
  assumes "\<not> list_ex (\<lambda>q. Some (qz_id q) = quizId \<and> qz_user_id q = userId) (quizzes d)"
    and "\<not> fault fs 0" and "\<not> fault fs 1"
  shows "delete_quiz_handler fs d userId quizId
     = (d\<lparr> questions := filter (\<lambda>q. Some (qn_quiz_id q) \<noteq> quizId) (questions d) \<rparr>,
        respond 404 (Error ''Quiz not found or access denied''))"
proof -
  have "filter (\<lambda>q. Some (qz_id q) = quizId \<and> qz_user_id q = userId) (quizzes d) = []"
    using assms(1) by (auto simp: list_ex_iff filter_empty_conv)
  moreover have "filter (\<lambda>q. \<not> (Some (qz_id q) = quizId \<and> qz_user_id q = userId)) (quizzes d)
                   = quizzes d"
    using assms(1) by (auto simp: list_ex_iff filter_id_conv)
  ultimately show ?thesis
    using assms(2,3) by (simp add: delete_quiz_handler_def deleteQuiz_def)
qed

section \<open>Creating a quiz\<close>

subsection \<open>The settling order\<close>

lemma exec_order_set: "set (exec_order sched n) = {0..<n}"
  by (auto simp: exec_order_def Let_def)

lemma exec_order_distinct: "distinct (exec_order sched n)"
  by (auto simp: exec_order_def Let_def)

lemma exec_order_mset: "mset (exec_order sched n) = mset [0..<n]"
proof -
  have "set (exec_order sched n) = set [0..<n]" by (simp add: exec_order_set)
  moreover have "distinct [0..<n]" by simp
  ultimately show ?thesis
    using exec_order_distinct [of sched n] set_eq_iff_mset_eq_distinct by blast
qed

lemma exec_order_permutation:
  assumes "set p = {0..<n}" and "distinct p"
  shows "exec_order p n = p"
proof -
  have "filter (\<lambda>j. j < n) p = p"
    using assms(1) by (auto simp: filter_id_conv)
  moreover have "filter (\<lambda>j. j \<notin> set p) [0..<n] = []"
    using assms(1) by (auto simp: filter_empty_conv)
  ultimately show ?thesis
    using assms(2) by (simp add: exec_order_def Let_def)
qed

lemma exec_order_length: "length (exec_order sched n) = n"
  using arg_cong [OF exec_order_mset, of size sched n] by simp

lemma sorted_int_upt: "sorted (map int [0..<n])"
  by (induction n) (auto simp: sorted_append)

lemma sort_exec_order: "sort_key int (exec_order sched n) = [0..<n]"
  by (rule sort_key_inj_key_eq) (simp_all add: exec_order_mset sorted_int_upt)

subsection \<open>The callbacks\<close>

lemma addQuestion_err: "(fst (addQuestion rt io qd d) \<noteq> None) = write_fails (io, qd)"
  by (simp add: addQuestion_def write_fails_def Let_def)

lemma run_inserts_progress:
  "snd (run_inserts rt n quizId jobs (d, st)) = settle n quizId (map write_fails jobs) st"
proof (induction jobs arbitrary: d st)
  case Nil
  show ?case by (simp add: settle_def)
next
  case (Cons job jobs)
  obtain io qd where job: "job = (io, qd)" by (cases job)
  obtain err d1 where a: "addQuestion rt io qd d = (err, d1)"
    by (cases "addQuestion rt io qd d")
  then have "(err \<noteq> None) = write_fails (io, qd)"
    using addQuestion_err [of rt io qd d] by simp
  then show ?case
    using Cons.IH [of d1] a job by (simp add: settle_def)
qed

lemma settle_snoc:
  "settle n quizId (errs @ [e]) st = question_done n quizId e (settle n quizId errs st)"
  by (simp add: settle_def)

lemma settle_count: "questionsAdded (settle n quizId errs st) = questionsAdded st + length errs"
  by (induction errs rule: rev_induct) (simp_all add: settle_def question_done_def Let_def)

lemma settle_error: "hasError (settle n quizId errs st) = (hasError st \<or> True \<in> set errs)"
  by (induction errs rule: rev_induct) (auto simp: settle_def question_done_def Let_def)

text \<open>Nothing is sent while fewer than \<open>n\<close> callbacks have run.\<close>

lemma settle_silent:
  "sent st = None \<Longrightarrow> questionsAdded st + length errs < n
     \<Longrightarrow> sent (settle n quizId errs st) = None"
proof (induction errs rule: rev_induct)
  case Nil
  then show ?case by (simp add: settle_def)
next
  case (snoc e errs)
  then have "sent (settle n quizId errs st) = None" by simp
  moreover have "questionsAdded (settle n quizId errs st) + 1 \<noteq> n"
    using snoc.prems(2) by (simp add: settle_count)
  ultimately show ?case
    by (simp add: settle_snoc question_done_def Let_def)
qed

text \<open>The \<open>n\<close>-th callback sends the response, and which one depends on all of them.\<close>

lemma settle_last:
  assumes "questionsAdded st + length errs = n" and "errs \<noteq> []"
  shows "sent (settle n quizId errs st) =
     Some (if hasError st \<or> True \<in> set errs
           then respond 500 (Error ''Some questions failed to save'')
           else respond 201 (QuizCreated ''Quiz created successfully'' quizId))"
proof -
  obtain es e where errs: "errs = es @ [e]"
    using assms(2) by (cases errs rule: rev_cases) auto
  have c: "questionsAdded (settle n quizId es st) + 1 = n"
    using assms(1) errs by (simp add: settle_count)
  have h: "hasError (settle n quizId es st) = (hasError st \<or> True \<in> set es)"
    by (rule settle_error)
  show ?thesis
    using c h by (cases e) (auto simp: errs settle_snoc question_done_def Let_def)
qed

subsection \<open>The question inserts leave the other tables alone\<close>

lemma run_inserts_other_tables:
  "quizzes (fst (run_inserts rt n quizId jobs (d, st))) = quizzes d
   \<and> seq_quizzes (fst (run_inserts rt n quizId jobs (d, st))) = seq_quizzes d
   \<and> users (fst (run_inserts rt n quizId jobs (d, st))) = users d
   \<and> quiz_results (fst (run_inserts rt n quizId jobs (d, st))) = quiz_results d"
proof (induction jobs arbitrary: d st)
  case Nil
  show ?case by simp
next
  case (Cons job jobs)
  obtain io qd where job: "job = (io, qd)" by (cases job)
  show ?case
    using Cons.IH by (simp add: job addQuestion_def Let_def)
qed

lemma add_questions_other_tables:
  "quizzes (fst (add_questions k rt fs sched quizId qf d1)) = quizzes d1
   \<and> seq_quizzes (fst (add_questions k rt fs sched quizId qf d1)) = seq_quizzes d1
   \<and> users (fst (add_questions k rt fs sched quizId qf d1)) = users d1
   \<and> quiz_results (fst (add_questions k rt fs sched quizId qf d1)) = quiz_results d1"
proof (cases qf)
  case (QuestionArray qs)
  let ?jobs = "map (\<lambda>j. (fault fs (Suc j),
                 map (\<lambda>(index, question). questionData quizId index question)
                   (enumerate 0 (queued_before_null qs)) ! j))
               (take k (exec_order sched (length (queued_before_null qs))))"
  have "fst (add_questions k rt fs sched quizId qf d1)
          = fst (run_inserts rt (length qs) quizId ?jobs (d1, start))"
    by (simp add: QuestionArray add_questions_def Let_def split: prod.split)
  then show ?thesis
    using run_inserts_other_tables [of rt "length qs" quizId ?jobs d1 start] by simp
qed (simp_all add: add_questions_def)

subsection \<open>The handler on a request that passes validation\<close>

lemma queued_before_null_objects: "queued_before_null (map Some qs) = qs"
  by (induction qs) simp_all

lemma queued_nth:
  "j < length qs \<Longrightarrow>
   map (\<lambda>(index, question). questionData quizId index question) (enumerate 0 qs) ! j
     = questionData quizId j (qs ! j)"
  by (simp add: nth_enumerate_eq)

lemma add_questions_settled:
  "add_questions k rt fs sched quizId (QuestionArray (map Some qs)) d1 =
     (case run_inserts rt (length qs) quizId (settled_jobs k fs sched quizId qs) (d1, start)
      of (d2, st) \<Rightarrow> (d2, sent st))"
proof -
  have "map (\<lambda>j. (fault fs (Suc j),
              map (\<lambda>(index, question). questionData quizId index question)
                (enumerate 0 qs) ! j))
          (take k (exec_order sched (length qs)))
        = settled_jobs k fs sched quizId qs"
    unfolding settled_jobs_def
  proof (rule map_cong [OF refl])
    fix j assume "j \<in> set (take k (exec_order sched (length qs)))"
    then have "j \<in> set (exec_order sched (length qs))" by (rule in_set_takeD)
    then have "j < length qs" by (simp add: exec_order_set)
    then show "(fault fs (Suc j),
               map (\<lambda>(index, question). questionData quizId index question)
                 (enumerate 0 qs) ! j)
             = (fault fs (Suc j), questionData quizId j (qs ! j))"
      by (simp only: queued_nth)
  qed
  then show ?thesis
    by (simp add: add_questions_def Let_def queued_before_null_objects)
qed

lemma create_quiz_after_valid:
  assumes "b_title rq = JStr t0" and "t0 \<noteq> []" and "string_trim rt t0 \<noteq> []"
    and "\<not> questions_rejected (b_questions rq)"
    and "description_text rt (b_description rq) = Some desc"
    and "\<not> fault fs 0"
  shows "create_quiz_after k rt fs sched d userId rq =
           add_questions k rt fs sched (next_quiz_id d) (b_questions rq)
             (with_quiz d (new_quiz rt d userId (string_trim rt t0) desc (b_timeLimit rq)))"
proof -
  have c: "createQuiz rt False \<lparr> title = JStr (string_trim rt t0), description = JStr desc,
              time_limit = js_or (b_timeLimit rq) (JNum 10), user_id = userId \<rparr> d
           = (Inr (next_quiz_id d),
              with_quiz d (new_quiz rt d userId (string_trim rt t0) desc (b_timeLimit rq)))"
    by (simp add: createQuiz_def with_quiz_def new_quiz_def next_quiz_id_def Let_def)
  show ?thesis
    using assms c by (simp add: create_quiz_after_def)
qed

lemma create_quiz_handler_valid:
  "b_questions rq = QuestionArray (map Some qs) \<Longrightarrow>
   create_quiz_handler rt fs sched d userId rq
     = create_quiz_after (length qs) rt fs sched d userId rq"
  by (simp add: create_quiz_handler_def queued_count_def queued_before_null_objects)

lemma settled_jobs_all:
  "settled_jobs (length qs) fs sched quizId qs =
     map (\<lambda>j. (fault fs (Suc j), questionData quizId j (qs ! j))) (exec_order sched (length qs))"
  by (simp add: settled_jobs_def exec_order_length)

lemma settled_jobs_length:
  "k \<le> length qs \<Longrightarrow> length (settled_jobs k fs sched quizId qs) = k"
  by (simp add: settled_jobs_def exec_order_length)

text \<open>Whatever the questions field holds, the quiz row stays once it is inserted.\<close>

lemma create_quiz_quizzes:
  assumes "b_title rq = JStr t0" and "t0 \<noteq> []" and "string_trim rt t0 \<noteq> []"
    and "\<not> questions_rejected (b_questions rq)"
    and "description_text rt (b_description rq) = Some desc"
    and "\<not> fault fs 0"
  shows "quizzes (fst (create_quiz_after k rt fs sched d userId rq))
           = quizzes d @ [new_quiz rt d userId (string_trim rt t0) desc (b_timeLimit rq)]"
  using add_questions_other_tables [of k rt fs sched "next_quiz_id d" "b_questions rq"
          "with_quiz d (new_quiz rt d userId (string_trim rt t0) desc (b_timeLimit rq))"]
  by (simp add: create_quiz_after_valid [OF assms] with_quiz_def)

lemma create_quiz_sent:
  assumes "b_title rq = JStr t0" and "t0 \<noteq> []" and "string_trim rt t0 \<noteq> []"
    and "b_questions rq = QuestionArray (map Some qs)" and "qs \<noteq> []"
    and "description_text rt (b_description rq) = Some desc"
    and "\<not> fault fs 0"
  shows "snd (create_quiz_after k rt fs sched d userId rq)
           = sent (settle (length qs) (next_quiz_id d)
                     (map write_fails (settled_jobs k fs sched (next_quiz_id d) qs)) start)"
proof -
  let ?d1 = "with_quiz d (new_quiz rt d userId (string_trim rt t0) desc (b_timeLimit rq))"
  let ?r = "run_inserts rt (length qs) (next_quiz_id d)
              (settled_jobs k fs sched (next_quiz_id d) qs) (?d1, start)"
  have acc: "\<not> questions_rejected (b_questions rq)"
    using assms(4,5) by simp
  have "snd (create_quiz_after k rt fs sched d userId rq) = sent (snd ?r)"
    by (simp add: create_quiz_after_valid [OF assms(1-3) acc assms(6,7)] assms(4)
          add_questions_settled split: prod.split)
  then show ?thesis
    by (simp add: run_inserts_progress)
qed


subsection \<open>The time limit\<close>

text \<open>
  Claim C10.  Take a create-quiz request that passes validation (the title is a non-empty
  string that \<^verbatim>\<open>trim\<close> does not empty, the \<^verbatim>\<open>questions\<close> field is not rejected, the
  description can be trimmed) and supplies \<^verbatim>\<open>timeLimit: 0\<close>.  When the quiz insert does
  not fault it stores one new quiz row, and the \<^verbatim>\<open>time_limit\<close> of that row is the integer
  10: \<^verbatim>\<open>timeLimit || 10\<close> replaces the falsy 0.  This holds for every runtime, whatever the
  \<^verbatim>\<open>questions\<close> field holds, and whatever happens to the question inserts afterwards:
  at the end of the handler and at every moment before.
\<close>

theorem zero_time_limit_default:
  assumes "b_title rq = JStr t0" and "t0 \<noteq> []" and "string_trim rt t0 \<noteq> []"
    and "\<not> questions_rejected (b_questions rq)"
    and "description_text rt (b_description rq) = Some desc"
    and "\<not> fault fs 0"
    and "b_timeLimit rq = JNum 0"
  shows "quizzes (fst (create_quiz_handler rt fs sched d userId rq))
           = quizzes d @ [\<lparr> qz_id = next_quiz_id d, qz_title = SText (string_trim rt t0),
                             qz_description = SText desc, qz_time_limit = SInt 10,
                             qz_user_id = userId \<rparr>]
       \<and> (\<forall>k. quizzes (fst (create_quiz_after k rt fs sched d userId rq))
                 = quizzes d @ [\<lparr> qz_id = next_quiz_id d,
                                   qz_title = SText (string_trim rt t0),
                                   qz_description = SText desc, qz_time_limit = SInt 10,
                                   qz_user_id = userId \<rparr>])"
proof -
  have "new_quiz rt d userId (string_trim rt t0) desc (b_timeLimit rq)
          = \<lparr> qz_id = next_quiz_id d, qz_title = SText (string_trim rt t0),
              qz_description = SText desc, qz_time_limit = SInt 10, qz_user_id = userId \<rparr>"
    using assms(7) by (simp add: new_quiz_def js_or_def is_int32_def)
  then show ?thesis
    using create_quiz_quizzes [OF assms(1-6), of _ sched d userId]
    by (simp add: create_quiz_handler_def)
qed

theorem zero_time_limit_default_witness:
  "b_timeLimit (quiz_of [question_ab]) = JNum 0
   \<and> string_trim rt0 ''T'' = ''T''
   \<and> quizzes (fst (create_quiz_handler rt0 [] [] db_quiz 2 (quiz_of [question_ab])))
       = quizzes db_quiz @ [\<lparr> qz_id = 2, qz_title = SText ''T'',
                               qz_description = SText [], qz_time_limit = SInt 10,
                               qz_user_id = 2 \<rparr>]"
proof -
  have h: "b_title (quiz_of [question_ab]) = JStr ''T''" "''T'' \<noteq> []"
    "string_trim rt0 ''T'' \<noteq> []"
    "\<not> questions_rejected (b_questions (quiz_of [question_ab]))"
    "description_text rt0 (b_description (quiz_of [question_ab])) = Some []"
    "\<not> fault [] 0" "b_timeLimit (quiz_of [question_ab]) = JNum 0"
    by (simp_all add: quiz_of_def rt0_def ascii_trim_def is_space_def description_text_def
          fault_def)
  have t: "string_trim rt0 ''T'' = ''T''"
    by (simp add: rt0_def ascii_trim_def is_space_def)
  have n: "next_quiz_id db_quiz = 2"
    by (simp add: next_quiz_id_def next_id_def db_quiz_def)
  show ?thesis
    using h(7) t n zero_time_limit_default [OF h, of "[]" db_quiz 2] by simp
qed

subsection \<open>A question insert that fails\<close>

lemma erase_id_row: "erase_id (question_row_of rt i qd) = question_row_of rt 0 qd"
  by (simp add: erase_id_def question_row_of_def)

lemma erase_id_fields:
  "qn_question_order (erase_id r) = qn_question_order r"
  "qn_quiz_id (erase_id r) = qn_quiz_id r"
  by (simp_all add: erase_id_def)

text \<open>
  The questions table grows by one row per insert that does not fail, in settling order;
  up to the row ids, the rows are the queued data.  No row is removed.
\<close>

lemma run_inserts_rows:
  "\<exists>rows. questions (fst (run_inserts rt n quizId jobs (d, st))) = questions d @ rows
     \<and> map erase_id rows
         = map (\<lambda>job. question_row_of rt 0 (snd job)) (filter (\<lambda>job. \<not> write_fails job) jobs)"
proof (induction jobs arbitrary: d st)
  case Nil
  show ?case by simp
next
  case (Cons job jobs)
  obtain io qd where job: "job = (io, qd)" by (cases job)
  show ?case
  proof (cases "write_fails job")
    case True
    then obtain e where a: "addQuestion rt io qd d = (Some e, d)"
      by (cases io) (auto simp: job write_fails_def addQuestion_def Let_def)
    show ?thesis
      using Cons.IH [of d "question_done n quizId True st"] True
      by (simp add: job a)
  next
    case False
    then have ok: "\<not> io" "\<not> question_violates qd"
      by (simp_all add: job write_fails_def)
    let ?r = "question_row_of rt (next_id (seq_questions d) (map qn_id (questions d))) qd"
    let ?d1 = "d\<lparr> questions := questions d @ [?r],
                   seq_questions := next_id (seq_questions d) (map qn_id (questions d)) \<rparr>"
    have a: "addQuestion rt io qd d = (None, ?d1)"
      using ok by (simp add: addQuestion_def Let_def)
    obtain rows where rows:
      "questions (fst (run_inserts rt n quizId jobs (?d1, question_done n quizId False st)))
         = questions ?d1 @ rows"
      "map erase_id rows
         = map (\<lambda>job. question_row_of rt 0 (snd job)) (filter (\<lambda>job. \<not> write_fails job) jobs)"
      using Cons.IH [of ?d1 "question_done n quizId False st"] by auto
    have "questions (fst (run_inserts rt n quizId (job # jobs) (d, st)))
            = questions d @ (?r # rows)"
      using rows(1) by (simp add: job a)
    moreover have "map erase_id (?r # rows)
                     = map (\<lambda>job. question_row_of rt 0 (snd job))
                         (filter (\<lambda>job. \<not> write_fails job) (job # jobs))"
      using rows(2) False by (simp add: job erase_id_row)
    ultimately show ?thesis by blast
  qed
qed

text \<open>The questions table after the handler, on a request that passes validation.\<close>

lemma create_quiz_questions:
  assumes "b_title rq = JStr t0" and "t0 \<noteq> []" and "string_trim rt t0 \<noteq> []"
    and "b_questions rq = QuestionArray (map Some qs)" and "qs \<noteq> []"
    and "description_text rt (b_description rq) = Some desc"
    and "\<not> fault fs 0"
  shows "\<exists>rows. questions (fst (create_quiz_handler rt fs sched d userId rq))
                  = questions d @ rows
           \<and> map erase_id rows
               = map (\<lambda>i. question_row_of rt 0 (questionData (next_quiz_id d) i (qs ! i)))
                   (filter (\<lambda>i. \<not> write_fails (fault fs (Suc i),
                                    questionData (next_quiz_id d) i (qs ! i)))
                      (exec_order sched (length qs)))"
proof -
  let ?q = "next_quiz_id d"
  let ?new = "new_quiz rt d userId (string_trim rt t0) desc (b_timeLimit rq)"
  let ?jobs = "settled_jobs (length qs) fs sched ?q qs"
  let ?res = "create_quiz_handler rt fs sched d userId rq"
  have acc: "\<not> questions_rejected (b_questions rq)"
    using assms(4,5) by simp
  have "fst ?res = fst (run_inserts rt (length qs) ?q ?jobs (with_quiz d ?new, start))"
    by (simp add: create_quiz_handler_valid [OF assms(4)]
          create_quiz_after_valid [OF assms(1-3) acc assms(6,7)] assms(4)
          add_questions_settled split: prod.split)
  then obtain rows where rows: "questions (fst ?res) = questions d @ rows"
    "map erase_id rows
       = map (\<lambda>job. question_row_of rt 0 (snd job)) (filter (\<lambda>job. \<not> write_fails job) ?jobs)"
    using run_inserts_rows [of rt "length qs" ?q ?jobs "with_quiz d ?new" start]
    by (auto simp: with_quiz_def)
  have "map (\<lambda>job. question_row_of rt 0 (snd job)) (filter (\<lambda>job. \<not> write_fails job) ?jobs)
          = map (\<lambda>i. question_row_of rt 0 (questionData ?q i (qs ! i)))
              (filter (\<lambda>i. \<not> write_fails (fault fs (Suc i), questionData ?q i (qs ! i)))
                 (exec_order sched (length qs)))"
    by (simp add: settled_jobs_all filter_map comp_def)
  then show ?thesis
    using rows by auto
qed

text \<open>
  Against claim C3 as stated: a quiz with one question that has no \<^verbatim>\<open>text\<close>.  The
  quiz row is inserted, the question insert violates \<^verbatim>\<open>question_text TEXT NOT NULL\<close>,
  and the operation does not report success: the answer is 500.
\<close>

theorem failed_question_write_answers_500:
  "write_fails (fault [] 1, questionData 2 0 question_untitled)
   \<and> create_quiz_handler rt0 [] [] db_quiz 2 (quiz_of [question_untitled])
       = (db_quiz\<lparr> quizzes := quizzes db_quiz @
                       [\<lparr> qz_id = 2, qz_title = SText ''T'', qz_description = SText [],
                          qz_time_limit = SInt 10, qz_user_id = 2 \<rparr>],
                    seq_quizzes := 2 \<rparr>,
          Some (respond 500 (Error ''Some questions failed to save'')))"
  by code_simp

text \<open>
  Claim C3, amended.  Take a create-quiz request that passes validation and whose
  \<^verbatim>\<open>questions\<close> field is an array of objects, a quiz insert that succeeds, and a question
  insert (position \<open>j\<close>) that fails.  Then, for every runtime and in whatever order the
  inserts settle: the answer is 500 ``Some questions failed to save''; as long as fewer
  than all question inserts have settled no response has been sent; and nothing is rolled
  back: the users and results tables are as before, the quizzes table has gained the new
  quiz row, and the questions table has gained exactly the rows of the inserts that did
  not fail, in settling order.
\<close>

theorem failed_write_reported_last:
  assumes "b_title rq = JStr t0" and "t0 \<noteq> []" and "string_trim rt t0 \<noteq> []"
    and "b_questions rq = QuestionArray (map Some qs)"
    and "description_text rt (b_description rq) = Some desc"
    and "\<not> fault fs 0"
    and "j < length qs"
    and "write_fails (fault fs (Suc j), questionData (next_quiz_id d) j (qs ! j))"
  shows "snd (create_quiz_handler rt fs sched d userId rq)
           = Some (respond 500 (Error ''Some questions failed to save''))
       \<and> (\<forall>k<length qs. snd (create_quiz_after k rt fs sched d userId rq) = None)
       \<and> users (fst (create_quiz_handler rt fs sched d userId rq)) = users d
       \<and> quiz_results (fst (create_quiz_handler rt fs sched d userId rq)) = quiz_results d
       \<and> quizzes (fst (create_quiz_handler rt fs sched d userId rq))
           = quizzes d @ [new_quiz rt d userId (string_trim rt t0) desc (b_timeLimit rq)]
       \<and> (\<exists>rows. questions (fst (create_quiz_handler rt fs sched d userId rq))
                    = questions d @ rows
             \<and> map erase_id rows
                 = map (\<lambda>i. question_row_of rt 0 (questionData (next_quiz_id d) i (qs ! i)))
                     (filter (\<lambda>i. \<not> write_fails (fault fs (Suc i),
                                      questionData (next_quiz_id d) i (qs ! i)))
                        (exec_order sched (length qs))))"
proof (intro conjI allI impI)
  have ne: "qs \<noteq> []" using assms(7) by auto
  have acc: "\<not> questions_rejected (b_questions rq)"
    using assms(4) ne by simp
  note valid = assms(1-4) ne assms(5,6)
  note valid' = assms(1-3) acc assms(5,6)
  let ?q = "next_quiz_id d"
  let ?n = "length qs"
  let ?new = "new_quiz rt d userId (string_trim rt t0) desc (b_timeLimit rq)"
  let ?errs = "map write_fails (settled_jobs ?n fs sched ?q qs)"
  have eq: "create_quiz_handler rt fs sched d userId rq
              = create_quiz_after ?n rt fs sched d userId rq"
    by (rule create_quiz_handler_valid [OF assms(4)])
  have "j \<in> set (exec_order sched ?n)"
    using assms(7) by (simp add: exec_order_set)
  then have "True \<in> set ?errs"
    using assms(8) by (force simp: settled_jobs_all)
  moreover have "length ?errs = ?n"
    by (simp add: settled_jobs_length)
  moreover have "?errs \<noteq> []"
    using ne \<open>length ?errs = ?n\<close> by auto
  ultimately have "sent (settle ?n ?q ?errs start)
                     = Some (respond 500 (Error ''Some questions failed to save''))"
    using settle_last [of start ?errs ?n ?q] by (simp add: start_def)
  then show "snd (create_quiz_handler rt fs sched d userId rq)
           = Some (respond 500 (Error ''Some questions failed to save''))"
    by (simp add: eq create_quiz_sent [OF valid])
  show "quizzes (fst (create_quiz_handler rt fs sched d userId rq)) = quizzes d @ [?new]"
    by (simp add: eq create_quiz_quizzes [OF valid'])
  have other: "users (fst (add_questions ?n rt fs sched ?q (b_questions rq) (with_quiz d ?new)))
                 = users (with_quiz d ?new)
      \<and> quiz_results (fst (add_questions ?n rt fs sched ?q (b_questions rq) (with_quiz d ?new)))
          = quiz_results (with_quiz d ?new)"
    using add_questions_other_tables [of ?n rt fs sched ?q "b_questions rq" "with_quiz d ?new"]
    by simp
  show "users (fst (create_quiz_handler rt fs sched d userId rq)) = users d"
    using other by (simp add: eq create_quiz_after_valid [OF valid'] with_quiz_def)
  show "quiz_results (fst (create_quiz_handler rt fs sched d userId rq)) = quiz_results d"
    using other by (simp add: eq create_quiz_after_valid [OF valid'] with_quiz_def)
  show "\<exists>rows. questions (fst (create_quiz_handler rt fs sched d userId rq))
                  = questions d @ rows
           \<and> map erase_id rows
               = map (\<lambda>i. question_row_of rt 0 (questionData (next_quiz_id d) i (qs ! i)))
                   (filter (\<lambda>i. \<not> write_fails (fault fs (Suc i),
                                    questionData (next_quiz_id d) i (qs ! i)))
                      (exec_order sched (length qs)))"
    by (rule create_quiz_questions [OF valid])
  fix k assume k: "k < length qs"
  have "sent (settle ?n ?q (map write_fails (settled_jobs k fs sched ?q qs)) start) = None"
    using k by (intro settle_silent) (simp_all add: start_def settled_jobs_length)
  then show "snd (create_quiz_after k rt fs sched d userId rq) = None"
    by (simp add: create_quiz_sent [OF valid])
qed

text \<open>
  An instance: the second of two questions has no text, and its insert settles first.
  The first question's row is stored and stays.
\<close>

theorem failed_write_reported_last_witness:
  "write_fails (fault [] 2, questionData (next_quiz_id db_quiz) 1
                  ([question_ab, question_untitled] ! 1))
   \<and> snd (create_quiz_handler rt0 [] [1, 0] db_quiz 2
            (quiz_of [question_ab, question_untitled]))
       = Some (respond 500 (Error ''Some questions failed to save''))
   \<and> snd (create_quiz_after 0 rt0 [] [1, 0] db_quiz 2
            (quiz_of [question_ab, question_untitled])) = None
   \<and> snd (create_quiz_after 1 rt0 [] [1, 0] db_quiz 2
            (quiz_of [question_ab, question_untitled])) = None
   \<and> users (fst (create_quiz_handler rt0 [] [1, 0] db_quiz 2
                    (quiz_of [question_ab, question_untitled]))) = users db_quiz
   \<and> quiz_results (fst (create_quiz_handler rt0 [] [1, 0] db_quiz 2
                           (quiz_of [question_ab, question_untitled]))) = quiz_results db_quiz
   \<and> quizzes (fst (create_quiz_handler rt0 [] [1, 0] db_quiz 2
                      (quiz_of [question_ab, question_untitled])))
       = quizzes db_quiz @ [new_quiz rt0 db_quiz 2 (string_trim rt0 ''T'') [] (JNum 0)]
   \<and> questions (fst (create_quiz_handler rt0 [] [1, 0] db_quiz 2
                        (quiz_of [question_ab, question_untitled])))
       = questions db_quiz @
           [\<lparr> qn_id = 2, qn_quiz_id = 2, qn_question_text = SText ''Q1'',
              qn_option_a = SText ''A'', qn_option_b = SText ''B'',
              qn_option_c = SNull, qn_option_d = SNull,
              qn_correct_answer = SInt 0, qn_question_order = 0 \<rparr>]"
proof -
  let ?qs = "[question_ab, question_untitled]"
  have h: "b_title (quiz_of ?qs) = JStr ''T''" "''T'' \<noteq> []" "string_trim rt0 ''T'' \<noteq> []"
    "b_questions (quiz_of ?qs) = QuestionArray (map Some ?qs)"
    "description_text rt0 (b_description (quiz_of ?qs)) = Some []"
    "\<not> fault [] 0" "1 < length ?qs"
    by (simp_all add: quiz_of_def rt0_def ascii_trim_def is_space_def description_text_def
          fault_def)
  have w: "write_fails (fault [] (Suc 1), questionData (next_quiz_id db_quiz) 1 (?qs ! 1))"
    by (simp add: write_fails_def question_violates_def questionData_def Let_def
          question_untitled_def)
  have tl: "b_timeLimit (quiz_of ?qs) = JNum 0"
    by (simp add: quiz_of_def)
  have rows: "questions (fst (create_quiz_handler rt0 [] [1, 0] db_quiz 2 (quiz_of ?qs)))
       = questions db_quiz @
           [\<lparr> qn_id = 2, qn_quiz_id = 2, qn_question_text = SText ''Q1'',
              qn_option_a = SText ''A'', qn_option_b = SText ''B'',
              qn_option_c = SNull, qn_option_d = SNull,
              qn_correct_answer = SInt 0, qn_question_order = 0 \<rparr>]"
    by code_simp
  note t = failed_write_reported_last [OF h w, of "[1, 0]" 2]
  have "snd (create_quiz_after 0 rt0 [] [1, 0] db_quiz 2 (quiz_of ?qs)) = None"
    "snd (create_quiz_after 1 rt0 [] [1, 0] db_quiz 2 (quiz_of ?qs)) = None"
    using t by simp_all
  then show ?thesis
    using w t rows by (simp add: tl fault_def)
qed


text \<open>
  Outside the amended claim: a request whose \<^verbatim>\<open>questions\<close> passes the validation
  without being an array of objects.  With a \<^verbatim>\<open>null\<close> element in the array, or with a
  value that has no \<^verbatim>\<open>forEach\<close>, the quiz row is inserted and the handler never
  answers, however many of the queued inserts have settled.
\<close>

lemma queued_before_null_short:
  "None \<in> set qs \<Longrightarrow> length (queued_before_null qs) < length qs"
proof (induction qs)
  case Nil
  then show ?case by simp
next
  case (Cons q qs)
  then show ?case by (cases q) auto
qed

lemma null_question_never_answered:
  assumes "b_title rq = JStr t0" and "t0 \<noteq> []" and "string_trim rt t0 \<noteq> []"
    and "b_questions rq = QuestionArray qs" and "None \<in> set qs"
    and "description_text rt (b_description rq) = Some desc"
    and "\<not> fault fs 0"
  shows "snd (create_quiz_after k rt fs sched d userId rq) = None"
    and "quizzes (fst (create_quiz_after k rt fs sched d userId rq))
           = quizzes d @ [new_quiz rt d userId (string_trim rt t0) desc (b_timeLimit rq)]"
proof -
  let ?q = "next_quiz_id d"
  let ?d1 = "with_quiz d (new_quiz rt d userId (string_trim rt t0) desc (b_timeLimit rq))"
  let ?queued = "map (\<lambda>(index, question). questionData ?q index question)
                   (enumerate 0 (queued_before_null qs))"
  let ?jobs = "map (\<lambda>j. (fault fs (Suc j), ?queued ! j))
                 (take k (exec_order sched (length ?queued)))"
  have acc: "\<not> questions_rejected (b_questions rq)"
    using assms(4,5) by auto
  note valid = assms(1-3) acc assms(6,7)
  have "length ?jobs \<le> length (queued_before_null qs)"
    by (simp add: exec_order_length)
  then have "length (map write_fails ?jobs) < length qs"
    using queued_before_null_short [OF assms(5)] by simp
  then have "sent (settle (length qs) ?q (map write_fails ?jobs) start) = None"
    by (intro settle_silent) (simp_all add: start_def)
  moreover have "snd (create_quiz_after k rt fs sched d userId rq)
                   = sent (snd (run_inserts rt (length qs) ?q ?jobs (?d1, start)))"
    by (simp add: create_quiz_after_valid [OF valid] assms(4) add_questions_def Let_def
          split: prod.split)
  ultimately show "snd (create_quiz_after k rt fs sched d userId rq) = None"
    by (simp add: run_inserts_progress)
  show "quizzes (fst (create_quiz_after k rt fs sched d userId rq))
          = quizzes d @ [new_quiz rt d userId (string_trim rt t0) desc (b_timeLimit rq)]"
    by (rule create_quiz_quizzes [OF valid])
qed

lemma non_array_never_answered:
  assumes "b_title rq = JStr t0" and "t0 \<noteq> []" and "string_trim rt t0 \<noteq> []"
    and "b_questions rq = NonArray False"
    and "description_text rt (b_description rq) = Some desc"
    and "\<not> fault fs 0"
  shows "create_quiz_after k rt fs sched d userId rq
           = (with_quiz d (new_quiz rt d userId (string_trim rt t0) desc (b_timeLimit rq)), None)"
proof -
  have acc: "\<not> questions_rejected (b_questions rq)"
    using assms(4) by simp
  show ?thesis
    by (simp add: create_quiz_after_valid [OF assms(1-3) acc assms(5,6)] assms(4)
          add_questions_def)
qed

subsection \<open>Fetching a quiz that was just created\<close>

lemma insort_key_map_commute:
  "map f (insort_key (\<lambda>x. g (f x)) x xs) = insort_key g (f x) (map f xs)"
  by (induction xs) simp_all

lemma sort_key_map_commute:
  "map f (sort_key (\<lambda>x. g (f x)) xs) = sort_key g (map f xs)"
  by (induction xs) (simp_all add: insort_key_map_commute)

lemma stored_string:
  "is_string v \<Longrightarrow> v \<noteq> JStr [] \<Longrightarrow>
     column (text_affinity rt (bind (js_or v w))) = v \<and> truthy v"
  by (cases v) (simp_all add: js_or_def)

text \<open>A string written to a \<^verbatim>\<open>TEXT\<close> column comes back as it was.\<close>

lemma stored_text_string: "stored_text rt (JStr s) = JStr s"
  by (simp add: stored_text_def)

lemma wf_next_quiz_id: "wf_db d \<Longrightarrow> next_quiz_id d = seq_quizzes d + 1"
  unfolding next_quiz_id_def
  by (rule next_id_counter) (simp add: wf_db_def list_all_iff)

text \<open>A well-formed question is stored without a constraint violation.\<close>

lemma well_formed_writes:
  assumes "well_formed_question q"
  shows "\<not> question_violates (questionData quizId j q)"
proof -
  have a: "\<And>v. bind (js_or v (JStr [])) \<noteq> SNull"
    subgoal for v by (cases v) (simp_all add: js_or_def)
    done
  have "bind (q_correct q) \<noteq> SNull"
    using assms
    by (cases "q_correct q") (simp_all add: well_formed_question_def well_formed_options_def)
  then show ?thesis
    using assms a
    by (simp add: question_violates_def questionData_def Let_def well_formed_question_def)
qed

text \<open>The row stored for a question with well-formed options reads back as that question.\<close>

lemma format_well_formed:
  assumes "well_formed_options q"
  shows "format_question (question_row_of rt i (questionData quizId j q))
           = \<lparr> qv_id = i, qv_text = stored_text rt (q_text q),
               qv_options = supplied_options q, qv_correct = q_correct q \<rparr>"
proof -
  let ?os = "supplied_options q"
  have len: "2 \<le> length ?os" "length ?os \<le> 4"
    and strs: "list_all (\<lambda>opt. is_string opt \<and> opt \<noteq> JStr []) ?os"
    and idx: "valid_index (q_correct q) ?os"
    using assms by (simp_all add: well_formed_options_def)
  have corr: "column (integer_affinity rt (bind (q_correct q))) = q_correct q"
  proof (cases "q_correct q")
    case (JNum c)
    then have "of_int \<lfloor>c\<rfloor> = c" "0 \<le> c" "c < of_nat (length ?os)"
      using idx by simp_all
    then show ?thesis
      unfolding JNum using len(2) by (rule bind_index)
  qed (use idx in simp_all)
  have el: "\<And>k w. k < length ?os \<Longrightarrow>
              column (text_affinity rt (bind (js_or (js_index ?os k) w))) = ?os ! k
              \<and> ?os ! k \<noteq> JNull \<and> ?os ! k \<noteq> JUndefined \<and> ?os ! k \<noteq> JStr []"
  proof -
    fix k w assume k: "k < length ?os"
    then have "is_string (?os ! k) \<and> ?os ! k \<noteq> JStr []"
      using strs by (simp add: list_all_length)
    then show "column (text_affinity rt (bind (js_or (js_index ?os k) w))) = ?os ! k
              \<and> ?os ! k \<noteq> JNull \<and> ?os ! k \<noteq> JUndefined \<and> ?os ! k \<noteq> JStr []"
      using k stored_string [of "?os ! k" rt w]
      by (cases "?os ! k") (simp_all add: js_index_def)
  qed
  have out: "\<And>k. length ?os \<le> k \<Longrightarrow>
              column (text_affinity rt (bind (js_or (js_index ?os k) JNull))) = JNull"
    by (simp add: js_index_def js_or_def)
  have fields: "question_text (questionData quizId j q) = q_text q"
    "option_a (questionData quizId j q) = js_or (js_index ?os 0) (JStr [])"
    "option_b (questionData quizId j q) = js_or (js_index ?os 1) (JStr [])"
    "option_c (questionData quizId j q) = js_or (js_index ?os 2) JNull"
    "option_d (questionData quizId j q) = js_or (js_index ?os 3) JNull"
    "correct_answer (questionData quizId j q) = q_correct q"
    by (simp_all add: questionData_def Let_def)
  consider "length ?os = 2" | "length ?os = 3" | "length ?os = 4"
    using len by linarith
  then have "filter (\<lambda>opt. opt \<noteq> JNull \<and> opt \<noteq> JUndefined \<and> opt \<noteq> JStr [])
               [column (text_affinity rt (bind (js_or (js_index ?os 0) (JStr [])))),
                column (text_affinity rt (bind (js_or (js_index ?os 1) (JStr [])))),
                column (text_affinity rt (bind (js_or (js_index ?os 2) JNull))),
                column (text_affinity rt (bind (js_or (js_index ?os 3) JNull)))] = ?os"
  proof cases
    case 1
    then obtain a b where os: "?os = [a, b]"
      by (auto simp: numeral_2_eq_2 length_Suc_conv)
    show ?thesis
      using el [of 0] el [of 1] out [of 2] out [of 3] 1 by (simp add: os)
  next
    case 2
    then obtain a b c where os: "?os = [a, b, c]"
      by (auto simp: numeral_3_eq_3 length_Suc_conv)
    show ?thesis
      using el [of 0] el [of 1] el [of 2] out [of 3] 2 by (simp add: os)
  next
    case 3
    then obtain a b c e where os: "?os = [a, b, c, e]"
      by (auto simp: numeral_eq_Suc length_Suc_conv)
    show ?thesis
      using el [of 0] el [of 1] el [of 2] el [of 3] 3 by (simp add: os)
  qed
  then show ?thesis
    using corr by (simp add: format_question_def question_row_of_def fields stored_text_def)
qed

lemma format_erase:
  "format_question r = (format_question (erase_id r))\<lparr> qv_id := qn_id r \<rparr>"
  by (simp add: format_question_def erase_id_def)

text \<open>\<^verbatim>\<open>ORDER BY question_order\<close> undoes the settling order.\<close>

lemma sorted_rows:
  assumes "map erase_id rows = map f (exec_order sched n)"
    and "\<And>j. qn_question_order (f j) = int j"
  shows "map erase_id (sort_key qn_question_order rows) = map f [0..<n]"
proof -
  have "map erase_id (sort_key qn_question_order rows)
          = map erase_id (sort_key (\<lambda>r. qn_question_order (erase_id r)) rows)"
    by (simp add: erase_id_fields)
  also have "\<dots> = sort_key qn_question_order (map erase_id rows)"
    by (rule sort_key_map_commute)
  also have "\<dots> = sort_key qn_question_order (map f (exec_order sched n))"
    by (simp add: assms(1))
  also have "\<dots> = map f (sort_key (\<lambda>j. qn_question_order (f j)) (exec_order sched n))"
    by (rule sort_key_map_commute [symmetric])
  also have "\<dots> = map f [0..<n]"
    by (simp add: assms(2) sort_exec_order)
  finally show ?thesis .
qed

text \<open>What the last callback sends, on a request that passes validation.\<close>

lemma create_quiz_response:
  assumes "b_title rq = JStr t0" and "t0 \<noteq> []" and "string_trim rt t0 \<noteq> []"
    and "b_questions rq = QuestionArray (map Some qs)" and "qs \<noteq> []"
    and "description_text rt (b_description rq) = Some desc"
    and "\<not> fault fs 0"
  shows "snd (create_quiz_handler rt fs sched d userId rq)
           = Some (if list_all (\<lambda>job. \<not> write_fails job)
                        (settled_jobs (length qs) fs sched (next_quiz_id d) qs)
                   then respond 201 (QuizCreated ''Quiz created successfully'' (next_quiz_id d))
                   else respond 500 (Error ''Some questions failed to save''))"
proof -
  let ?q = "next_quiz_id d"
  let ?jobs = "settled_jobs (length qs) fs sched ?q qs"
  have "length (map write_fails ?jobs) = length qs"
    by (simp add: settled_jobs_length)
  moreover from this have "map write_fails ?jobs \<noteq> []"
    using assms(5) by auto
  moreover have "(True \<in> set (map write_fails ?jobs))
                   = (\<not> list_all (\<lambda>job. \<not> write_fails job) ?jobs)"
    by (auto simp: list_all_iff)
  ultimately have "sent (settle (length qs) ?q (map write_fails ?jobs) start)
      = Some (if list_all (\<lambda>job. \<not> write_fails job) ?jobs
              then respond 201 (QuizCreated ''Quiz created successfully'' ?q)
              else respond 500 (Error ''Some questions failed to save''))"
    using settle_last [of start "map write_fails ?jobs" "length qs" ?q]
    by (simp add: start_def)
  then show ?thesis
    by (simp add: create_quiz_handler_valid [OF assms(4)] create_quiz_sent [OF assms])
qed

text \<open>A request that is answered 201 passed validation, and its quiz insert succeeded.\<close>

lemma js_trim_Some: "js_trim rt v = Some t \<Longrightarrow> \<exists>s. v = JStr s \<and> t = string_trim rt s"
  by (cases v) simp_all

lemma created_request_valid:
  assumes "snd (create_quiz_after k rt fs sched d userId rq) = Some (respond 201 b)"
  shows "\<exists>t0 desc. b_title rq = JStr t0 \<and> t0 \<noteq> [] \<and> string_trim rt t0 \<noteq> []
           \<and> \<not> questions_rejected (b_questions rq)
           \<and> description_text rt (b_description rq) = Some desc \<and> \<not> fault fs 0"
proof -
  have t: "truthy (b_title rq)"
  proof (rule ccontr)
    assume "\<not> truthy (b_title rq)"
    then show False
      using assms by (simp add: create_quiz_after_def respond_def)
  qed
  obtain t1 where t1: "js_trim rt (b_title rq) = Some t1"
    using assms t by (cases "js_trim rt (b_title rq)")
      (auto simp: create_quiz_after_def respond_def internal_error_def)
  then obtain t0 where t0: "b_title rq = JStr t0" "t1 = string_trim rt t0"
    using js_trim_Some by blast
  have t0ne: "t0 \<noteq> []"
    using t t0(1) by auto
  have ne: "string_trim rt t0 \<noteq> []"
  proof
    assume "string_trim rt t0 = []"
    then show False
      using assms t t0 by (simp add: create_quiz_after_def respond_def)
  qed
  have acc: "\<not> questions_rejected (b_questions rq)"
  proof
    assume "questions_rejected (b_questions rq)"
    then show False
      using assms t t0 ne by (simp add: create_quiz_after_def respond_def)
  qed
  obtain desc where desc: "description_text rt (b_description rq) = Some desc"
    using assms t t0 ne acc by (cases "description_text rt (b_description rq)")
      (auto simp: create_quiz_after_def respond_def internal_error_def)
  have "\<not> fault fs 0"
  proof
    assume "fault fs 0"
    then show False
      using assms t t0 ne acc desc
      by (simp add: create_quiz_after_def respond_def createQuiz_def Let_def)
  qed
  then show ?thesis
    using t0 t0ne ne acc desc by blast
qed


text \<open>
  Fetching after a creation in which no question insert failed: the submitted questions,
  in the order submitted.
\<close>

lemma fetch_created:
  assumes "b_title rq = JStr t0" and "t0 \<noteq> []" and "string_trim rt t0 \<noteq> []"
    and "b_questions rq = QuestionArray (map Some qs)" and "qs \<noteq> []"
    and "description_text rt (b_description rq) = Some desc"
    and "\<not> fault fs 0"
    and "list_all (\<lambda>job. \<not> write_fails job)
           (settled_jobs (length qs) fs sched (next_quiz_id d) qs)"
    and "list_all well_formed_options qs"
    and "no_faults fs'"
    and "wf_db d"
  shows "\<exists>view. get_quiz_handler fs' (fst (create_quiz_handler rt fs sched d userId rq))
                   (Some (next_quiz_id d)) = respond 200 (Quiz view)
           \<and> qz_title (v_quiz view) = SText (string_trim rt t0)
           \<and> list_all2 (same_question rt) (v_questions view) qs"
proof -
  let ?q = "next_quiz_id d"
  let ?n = "length qs"
  let ?new = "new_quiz rt d userId (string_trim rt t0) desc (b_timeLimit rq)"
  let ?f = "\<lambda>j. question_row_of rt 0 (questionData ?q j (qs ! j))"
  let ?jobs = "settled_jobs ?n fs sched ?q qs"
  let ?res = "create_quiz_handler rt fs sched d userId rq"
  note valid = assms(1-7)
  have acc: "\<not> questions_rejected (b_questions rq)"
    using assms(4,5) by simp
  have wfq: "\<And>j. j < ?n \<Longrightarrow> well_formed_options (qs ! j)"
    using assms(9) by (simp add: list_all_length)
  have eq: "?res = create_quiz_after ?n rt fs sched d userId rq"
    by (rule create_quiz_handler_valid [OF assms(4)])
  \<comment> \<open>the tables\<close>
  have qz: "quizzes (fst ?res) = quizzes d @ [?new]"
    by (simp add: eq create_quiz_quizzes [OF assms(1-3) acc assms(6,7)])
  have all: "filter (\<lambda>i. \<not> write_fails (fault fs (Suc i), questionData ?q i (qs ! i)))
               (exec_order sched ?n) = exec_order sched ?n"
    using assms(8) by (simp add: settled_jobs_all filter_id_conv list_all_iff)
  obtain rows where rows: "questions (fst ?res) = questions d @ rows"
    "map erase_id rows = map ?f (exec_order sched ?n)"
    using create_quiz_questions [OF valid, of sched d userId] unfolding all by blast
  \<comment> \<open>the fetch\<close>
  have "\<And>x. x \<in> set (quizzes d) \<Longrightarrow> qz_id x < ?q"
    unfolding next_quiz_id_def by (rule next_id_above(2)) simp
  then have "\<not> list_ex (\<lambda>x. Some (qz_id x) = Some ?q) (quizzes d)"
    by (fastforce simp: list_ex_iff)
  then have old_quiz: "find (\<lambda>x. Some (qz_id x) = Some ?q) (quizzes d) = None"
    by (simp add: find_None_ex)
  have found: "find (\<lambda>x. Some (qz_id x) = Some ?q) (quizzes (fst ?res)) = Some ?new"
    using old_quiz by (simp add: qz find_append_None new_quiz_def)
  have "seq_quizzes d < ?q"
    unfolding next_quiz_id_def by (rule next_id_above(1))
  then have old_rows: "filter (\<lambda>x. Some (qn_quiz_id x) = Some ?q) (questions d) = []"
    using assms(11) by (auto simp: wf_db_def list_all_iff filter_empty_conv)
  have "\<And>r. r \<in> set rows \<Longrightarrow> qn_quiz_id r = ?q"
  proof -
    fix r assume "r \<in> set rows"
    then have "erase_id r \<in> set (map ?f (exec_order sched ?n))"
      using rows(2) by (metis image_eqI set_map)
    then show "qn_quiz_id r = ?q"
      using erase_id_fields(2) [of r]
      by (auto simp: question_row_of_def questionData_def Let_def)
  qed
  then have new_rows: "filter (\<lambda>x. Some (qn_quiz_id x) = Some ?q) rows = rows"
    by (simp add: filter_id_conv)
  let ?sorted = "sort_key qn_question_order rows"
  let ?view = "\<lparr> v_quiz = ?new, v_questions = map format_question ?sorted \<rparr>"
  have get: "get_quiz_handler fs' (fst ?res) (Some ?q) = respond 200 (Quiz ?view)"
    using found old_rows new_rows no_faults_fault [OF assms(10)]
    by (simp add: get_quiz_handler_def getQuizById_def rows(1))
  have srt: "map erase_id ?sorted = map ?f [0..<?n]"
    by (rule sorted_rows [OF rows(2)]) (simp add: question_row_of_def questionData_def Let_def)
  have len: "length ?sorted = ?n"
    using arg_cong [OF srt, of length] by simp
  have "list_all2 (same_question rt) (map format_question ?sorted) qs"
    unfolding list_all2_conv_all_nth
  proof (intro conjI allI impI)
    show "length (map format_question ?sorted) = length qs"
      by (simp add: len del: length_sort)
    fix i assume "i < length (map format_question ?sorted)"
    then have i: "i < ?n" by (simp add: len del: length_sort)
    have "erase_id (?sorted ! i) = ?f i"
      using arg_cong [OF srt, of "\<lambda>xs. xs ! i"] i len by (simp del: length_sort)
    then have "format_question (?sorted ! i)
                 = (format_question (?f i))\<lparr> qv_id := qn_id (?sorted ! i) \<rparr>"
      using format_erase [of "?sorted ! i"] by simp
    then have "format_question (?sorted ! i)
                 = \<lparr> qv_id = qn_id (?sorted ! i), qv_text = stored_text rt (q_text (qs ! i)),
                     qv_options = supplied_options (qs ! i), qv_correct = q_correct (qs ! i) \<rparr>"
      by (simp add: format_well_formed [OF wfq [OF i]])
    moreover have "valid_index (q_correct (qs ! i)) (supplied_options (qs ! i))"
      using wfq [OF i] by (simp add: well_formed_options_def)
    ultimately show "same_question rt (map format_question ?sorted ! i) (qs ! i)"
      using i len by (simp add: same_question_def del: length_sort)
  qed
  then have "get_quiz_handler fs' (fst ?res) (Some ?q) = respond 200 (Quiz ?view)
      \<and> qz_title (v_quiz ?view) = SText (string_trim rt t0)
      \<and> list_all2 (same_question rt) (v_questions ?view) qs"
    using get by (simp add: new_quiz_def)
  then show ?thesis by blast
qed

text \<open>
  Creation does succeed when, besides, every question has a text and the engine does not
  fault.
\<close>

lemma create_quiz_succeeds:
  assumes "b_title rq = JStr t0" and "t0 \<noteq> []" and "string_trim rt t0 \<noteq> []"
    and "b_questions rq = QuestionArray (map Some qs)" and "qs \<noteq> []"
    and "description_text rt (b_description rq) = Some desc"
    and "list_all well_formed_question qs"
    and "no_faults fs"
  shows "snd (create_quiz_handler rt fs sched d userId rq)
           = Some (respond 201 (QuizCreated ''Quiz created successfully'' (next_quiz_id d)))"
proof -
  let ?q = "next_quiz_id d"
  have "list_all (\<lambda>job. \<not> write_fails job) (settled_jobs (length qs) fs sched ?q qs)"
    unfolding settled_jobs_all list_all_iff
  proof
    fix job
    assume "job \<in> set (map (\<lambda>j. (fault fs (Suc j), questionData ?q j (qs ! j)))
                         (exec_order sched (length qs)))"
    then obtain j where j: "j < length qs"
      "job = (fault fs (Suc j), questionData ?q j (qs ! j))"
      by (auto simp: exec_order_set)
    have "well_formed_question (qs ! j)"
      using assms(7) j(1) by (simp add: list_all_length)
    then show "\<not> write_fails job"
      using well_formed_writes [of "qs ! j" ?q j] no_faults_fault [OF assms(8)]
      by (simp add: j(2) write_fails_def)
  qed
  then show ?thesis
    using create_quiz_response [OF assms(1-6) no_faults_fault [OF assms(8)], of sched d userId]
    by simp
qed

text \<open>
  Claim C1.  Take a quiz that Create-Quiz created (it answered 201 with the quiz id) from
  an array of questions each having two to four non-empty option strings and a correct
  index into them, on a database where no row refers to a quiz id not yet handed out.
  Then, for every runtime and in whatever order the question inserts settled, a Get-Quiz
  of that id whose queries the engine answers returns 200 with the submitted title,
  trimmed, and the submitted questions in the order submitted: each has the submitted
  options as its option list, its correct-answer field is the submitted index, valid in
  that list, and its text is the submitted text as a \<^verbatim>\<open>TEXT\<close> column stores it (a string
  unchanged, lemma \<open>stored_text_string\<close>).
\<close>

theorem created_quiz_round_trip:
  assumes "create_quiz_handler rt fs sched d userId rq
             = (d', Some (respond 201 (QuizCreated msg quizId)))"
    and "b_questions rq = QuestionArray (map Some qs)"
    and "list_all well_formed_options qs"
    and "no_faults fs'"
    and "wf_db d"
  shows "\<exists>view t0. b_title rq = JStr t0
           \<and> get_quiz_handler fs' d' (Some quizId) = respond 200 (Quiz view)
           \<and> qz_title (v_quiz view) = SText (string_trim rt t0)
           \<and> list_all2 (same_question rt) (v_questions view) qs"
proof -
  let ?q = "next_quiz_id d"
  let ?jobs = "settled_jobs (length qs) fs sched ?q qs"
  have "snd (create_quiz_after (length qs) rt fs sched d userId rq)
          = Some (respond 201 (QuizCreated msg quizId))"
    using assms(1) by (simp add: create_quiz_handler_valid [OF assms(2)])
  then have "\<exists>t0 desc. b_title rq = JStr t0 \<and> t0 \<noteq> [] \<and> string_trim rt t0 \<noteq> []
      \<and> \<not> questions_rejected (b_questions rq)
      \<and> description_text rt (b_description rq) = Some desc \<and> \<not> fault fs 0"
    by (rule created_request_valid)
  then obtain t0 desc where v: "b_title rq = JStr t0" "t0 \<noteq> []" "string_trim rt t0 \<noteq> []"
    "\<not> questions_rejected (b_questions rq)"
    "description_text rt (b_description rq) = Some desc" "\<not> fault fs 0"
    by blast
  have ne: "qs \<noteq> []"
    using v(4) assms(2) by auto
  note valid = v(1-3) assms(2) ne v(5,6)
  have "Some (respond 201 (QuizCreated msg quizId))
          = Some (if list_all (\<lambda>job. \<not> write_fails job) ?jobs
                  then respond 201 (QuizCreated ''Quiz created successfully'' ?q)
                  else respond 500 (Error ''Some questions failed to save''))"
    using create_quiz_response [OF valid, of sched d userId] assms(1) by simp
  then have ok: "list_all (\<lambda>job. \<not> write_fails job) ?jobs" and q: "quizId = ?q"
    by (simp_all add: respond_def split: if_splits)
  have d': "d' = fst (create_quiz_handler rt fs sched d userId rq)"
    using assms(1) by simp
  show ?thesis
    using fetch_created [OF valid ok assms(3,4,5), of userId] v(1)
    unfolding d' q by blast
qed

text \<open>
  An instance: two questions whose inserts settle in reverse order (the second question
  gets the smaller row id), fetched back in the order submitted.
\<close>

theorem created_quiz_round_trip_witness:
  "wf_db db_quiz
   \<and> list_all well_formed_options [question_ab, question_cde]
   \<and> snd (create_quiz_handler rt0 [] [1, 0] db_quiz 2 (quiz_of [question_ab, question_cde]))
       = Some (respond 201 (QuizCreated ''Quiz created successfully'' 2))
   \<and> (\<exists>view t0. b_title (quiz_of [question_ab, question_cde]) = JStr t0
         \<and> get_quiz_handler []
              (fst (create_quiz_handler rt0 [] [1, 0] db_quiz 2
                      (quiz_of [question_ab, question_cde]))) (Some 2)
             = respond 200 (Quiz view)
         \<and> qz_title (v_quiz view) = SText (string_trim rt0 t0)
         \<and> list_all2 (same_question rt0) (v_questions view) [question_ab, question_cde])
   \<and> get_quiz_handler []
         (fst (create_quiz_handler rt0 [] [1, 0] db_quiz 2
                 (quiz_of [question_ab, question_cde])))
         (Some 2)
       = respond 200 (Quiz
           \<lparr> v_quiz = \<lparr> qz_id = 2, qz_title = SText ''T'', qz_description = SText [],
                        qz_time_limit = SInt 10, qz_user_id = 2 \<rparr>,
             v_questions =
               [\<lparr> qv_id = 3, qv_text = JStr ''Q1'', qv_options = [JStr ''A'', JStr ''B''],
                  qv_correct = JNum 0 \<rparr>,
                \<lparr> qv_id = 2, qv_text = JStr ''Q2'',
                  qv_options = [JStr ''C'', JStr ''D'', JStr ''E''],
                  qv_correct = JNum 2 \<rparr>] \<rparr>)"
proof -
  let ?qs = "[question_ab, question_cde]"
  let ?res = "create_quiz_handler rt0 [] [1, 0] db_quiz 2 (quiz_of ?qs)"
  have r: "snd ?res = Some (respond 201 (QuizCreated ''Quiz created successfully'' 2))"
    by code_simp
  then have h: "?res = (fst ?res, Some (respond 201 (QuizCreated ''Quiz created successfully'' 2)))"
    by (simp add: prod_eq_iff)
  have q: "b_questions (quiz_of ?qs) = QuestionArray (map Some ?qs)"
    by (simp add: quiz_of_def)
  have w: "list_all well_formed_options ?qs"
    by (simp add: well_formed_options_def supplied_options_def question_ab_def
          question_cde_def)
  have f: "no_faults []"
    by (simp add: no_faults_def)
  have d: "wf_db db_quiz"
    by (simp add: wf_db_def db_quiz_def)
  have c: "get_quiz_handler [] (fst ?res) (Some 2)
       = respond 200 (Quiz
           \<lparr> v_quiz = \<lparr> qz_id = 2, qz_title = SText ''T'', qz_description = SText [],
                        qz_time_limit = SInt 10, qz_user_id = 2 \<rparr>,
             v_questions =
               [\<lparr> qv_id = 3, qv_text = JStr ''Q1'', qv_options = [JStr ''A'', JStr ''B''],
                  qv_correct = JNum 0 \<rparr>,
                \<lparr> qv_id = 2, qv_text = JStr ''Q2'',
                  qv_options = [JStr ''C'', JStr ''D'', JStr ''E''],
                  qv_correct = JNum 2 \<rparr>] \<rparr>)"
    by code_simp
  show ?thesis
    using d w r c created_quiz_round_trip [OF h q w f d] by blast
qed


section \<open>Every handler keeps the database well formed\<close>

lemma wf_db_empty: "wf_db empty_db"
  by (simp add: wf_db_def empty_db_def)

lemma addQuestion_wf:
  "wf_db d \<Longrightarrow> quiz_id qd \<le> seq_quizzes d \<Longrightarrow> wf_db (snd (addQuestion rt io qd d))"
  by (simp add: addQuestion_def wf_db_def question_row_of_def Let_def)

lemma addQuestion_seq: "seq_quizzes (snd (addQuestion rt io qd d)) = seq_quizzes d"
  by (simp add: addQuestion_def Let_def)

lemma run_inserts_wf:
  "wf_db d \<Longrightarrow> list_all (\<lambda>job. quiz_id (snd job) \<le> seq_quizzes d) jobs
     \<Longrightarrow> wf_db (fst (run_inserts rt n quizId jobs (d, st)))"
proof (induction jobs arbitrary: d st)
  case Nil
  then show ?case by simp
next
  case (Cons job jobs)
  obtain io qd where job: "job = (io, qd)" by (cases job)
  obtain err d1 where a: "addQuestion rt io qd d = (err, d1)"
    by (cases "addQuestion rt io qd d")
  have "wf_db d1" "seq_quizzes d1 = seq_quizzes d"
    using addQuestion_wf [of d qd rt io] addQuestion_seq [of rt io qd d] Cons.prems a
    by (simp_all add: job)
  then have "wf_db (fst (run_inserts rt n quizId jobs
                           (d1, question_done n quizId (err \<noteq> None) st)))"
    using Cons.prems(2) by (intro Cons.IH) simp_all
  then show ?case by (simp add: job a)
qed

lemma add_questions_wf:
  assumes "wf_db d1" and "seq_quizzes d1 = quizId"
  shows "wf_db (fst (add_questions k rt fs sched quizId qf d1))"
proof (cases qf)
  case (QuestionArray qs)
  let ?queued = "map (\<lambda>(index, question). questionData quizId index question)
                   (enumerate 0 (queued_before_null qs))"
  let ?jobs = "map (\<lambda>j. (fault fs (Suc j), ?queued ! j))
                 (take k (exec_order sched (length ?queued)))"
  have "list_all (\<lambda>job. quiz_id (snd job) \<le> seq_quizzes d1) ?jobs"
    unfolding list_all_iff
  proof
    fix job assume "job \<in> set ?jobs"
    then obtain j where j: "j \<in> set (take k (exec_order sched (length ?queued)))"
      "job = (fault fs (Suc j), ?queued ! j)"
      by auto
    have "j \<in> set (exec_order sched (length ?queued))"
      using j(1) by (rule in_set_takeD)
    then have "j < length (queued_before_null qs)"
      by (simp add: exec_order_set)
    then have "?queued ! j = questionData quizId j (queued_before_null qs ! j)"
      by (rule queued_nth)
    then show "quiz_id (snd job) \<le> seq_quizzes d1"
      by (simp add: j(2) questionData_def Let_def assms(2))
  qed
  then have "wf_db (fst (run_inserts rt (length qs) quizId ?jobs (d1, start)))"
    by (rule run_inserts_wf [OF assms(1)])
  moreover have "fst (add_questions k rt fs sched quizId qf d1)
                   = fst (run_inserts rt (length qs) quizId ?jobs (d1, start))"
    by (simp add: QuestionArray add_questions_def Let_def split: prod.split)
  ultimately show ?thesis by simp
qed (simp_all add: add_questions_def assms(1))

lemma wf_db_next:
  assumes "wf_db d"
  shows "list_all (\<lambda>q. qz_id q \<le> seq_quizzes d + 1) (quizzes d)"
    and "list_all (\<lambda>q. qn_quiz_id q \<le> seq_quizzes d + 1) (questions d)"
proof -
  have "list_all (\<lambda>q. qz_id q \<le> seq_quizzes d) (quizzes d)"
    and "list_all (\<lambda>q. qn_quiz_id q \<le> seq_quizzes d) (questions d)"
    using assms by (simp_all add: wf_db_def)
  then show "list_all (\<lambda>q. qz_id q \<le> seq_quizzes d + 1) (quizzes d)"
    and "list_all (\<lambda>q. qn_quiz_id q \<le> seq_quizzes d + 1) (questions d)"
    by (auto elim!: list.pred_mono_strong)
qed

lemma createQuiz_wf:
  assumes "wf_db d" and "createQuiz rt io quizData d = (r, d1)"
  shows "wf_db d1"
proof (cases "io \<or> text_affinity rt (bind (title quizData)) = SNull")
  case True
  then have "d1 = d"
    using assms(2) by (auto simp: createQuiz_def Let_def split: if_splits)
  then show ?thesis
    using assms(1) by simp
next
  case False
  have n: "next_id (seq_quizzes d) (map qz_id (quizzes d)) = seq_quizzes d + 1"
    using wf_next_quiz_id [OF assms(1)] by (simp add: next_quiz_id_def)
  show ?thesis
    using False assms(2) wf_db_next [OF assms(1)]
    by (auto simp: createQuiz_def Let_def wf_db_def n)
qed

lemma createQuiz_id:
  "createQuiz rt io quizData d = (Inr quizId, d1) \<Longrightarrow> seq_quizzes d1 = quizId"
  by (auto simp: createQuiz_def Let_def split: if_splits)

lemma create_quiz_wf:
  assumes "wf_db d"
  shows "wf_db (fst (create_quiz_after k rt fs sched d userId rq))"
  using assms
  by (auto simp: create_quiz_after_def
           split: option.split sum.split prod.split
           intro: add_questions_wf dest: createQuiz_wf createQuiz_id)

lemma delete_quiz_wf: "wf_db d \<Longrightarrow> wf_db (fst (delete_quiz_handler fs d userId quizId))"
  by (auto simp: delete_quiz_handler_def deleteQuiz_def wf_db_def list_all_iff Let_def)

lemma register_wf: "wf_db d \<Longrightarrow> wf_db (fst (register_handler rt lib fs d rq))"
  by (auto simp: register_handler_def createUser_def wf_db_def Let_def
           split: sum.split option.split)

lemma save_result_wf: "wf_db d \<Longrightarrow> wf_db (fst (save_result_handler rt fs d userId rq))"
  by (auto simp: save_result_handler_def saveResult_def wf_db_def Let_def)

end
